theory Spec2Isabelle
  imports Complex_Main
begin

section \<open>Python values used by the scripts\<close>

text \<open>
  Python floats are modelled as real numbers: rounding, overflow, infinities and NaN are
  outside the model. Python's unbounded integers are \<open>int\<close>; lengths and counters that
  only count up from zero are \<open>nat\<close>. An exception is a value carrying its class name and
  the text \<open>str(e)\<close> returns; a function that may raise returns \<open>exn + 'a\<close>.
\<close>

datatype exn = Exn (exn_class: string) (exn_text: string)

definition str_exn :: "exn \<Rightarrow> string" where
  "str_exn e = exn_text e"

definition bindE :: "'err + 'v \<Rightarrow> ('v \<Rightarrow> 'err + 'w) \<Rightarrow> 'err + 'w" where
  "bindE m f = (case m of Inr x \<Rightarrow> f x | Inl e \<Rightarrow> Inl e)"

text \<open>Decimal rendering of integers, as an f-string interpolates them.\<close>

definition digit_char :: "nat \<Rightarrow> char" where
  "digit_char d = ''0123456789'' ! d"

fun str_nat :: "nat \<Rightarrow> string" where
  "str_nat n = (if n < 10 then [digit_char n] else str_nat (n div 10) @ [digit_char (n mod 10)])"

definition str_int :: "int \<Rightarrow> string" where
  "str_int i = (if i < 0 then CHR ''-'' # str_nat (nat (- i)) else str_nat (nat i))"

text \<open>\<open>int(x)\<close> on a float truncates towards zero.\<close>

definition py_trunc :: "real \<Rightarrow> int" where
  "py_trunc x = (if 0 \<le> x then \<lfloor>x\<rfloor> else \<lceil>x\<rceil>)"

text \<open>List indexing: a negative index counts from the end, out of range raises IndexError.\<close>

definition py_getitem :: "'a list \<Rightarrow> int \<Rightarrow> exn + 'a" where
  "py_getitem xs i =
     (if 0 \<le> i \<and> i < int (length xs) then Inr (xs ! nat i)
      else if i < 0 \<and> - int (length xs) \<le> i then Inr (xs ! nat (int (length xs) + i))
      else Inl (Exn ''IndexError'' ''list index out of range''))"

text \<open>\<open>range(n)\<close> for an integer \<open>n\<close>: empty when \<open>n \<le> 0\<close>.\<close>

definition py_range :: "int \<Rightarrow> int list" where
  "py_range n = [0 .. n - 1]"

subsection \<open>The \<open>statistics\<close> module\<close>

text \<open>
  The three library functions the scripts call, by their documented meaning: the
  arithmetic mean, the median (mean of the two middle values for an even count) and the
  sample standard deviation (divisor \<open>n - 1\<close>). Each raises StatisticsError on too few
  data points.
\<close>

definition statistics_mean :: "real list \<Rightarrow> exn + real" where
  "statistics_mean xs =
     (if xs = [] then Inl (Exn ''StatisticsError'' ''mean requires at least one data point'')
      else Inr (sum_list xs / real (length xs)))"

definition statistics_median :: "real list \<Rightarrow> exn + real" where
  "statistics_median xs =
     (let s = sort xs; n = length s in
      if n = 0 then Inl (Exn ''StatisticsError'' ''no median for empty data'')
      else if n mod 2 = 1 then Inr (s ! (n div 2))
      else Inr ((s ! (n div 2 - 1) + s ! (n div 2)) / 2))"

definition sample_variance :: "real list \<Rightarrow> real" where
  "sample_variance xs =
     (let m = sum_list xs / real (length xs)
      in sum_list (map (\<lambda>x. (x - m)\<^sup>2) xs) / (real (length xs) - 1))"

definition statistics_stdev :: "real list \<Rightarrow> exn + real" where
  "statistics_stdev xs =
     (if length xs < 2
      then Inl (Exn ''StatisticsError'' ''stdev requires at least two data points'')
      else Inr (sqrt (sample_variance xs)))"

section \<open>Test orchestrator (\<open>test_orchestrator.py\<close>)\<close>

subsection \<open>Data\<close>

record TestResult =
  test_name :: string
  node_id :: int
  start_time :: real
  end_time :: real
  success :: bool
  metrics :: "(string \<times> real) list"
  logs :: "string list"
  error_message :: "string option"

record breakdown =
  total :: nat
  passed :: nat
  failed :: nat
  success_rate :: real

text \<open>
  The summary dictionary has one of two shapes, one per suite kind; the keys
  \<open>total_tests\<close>, \<open>passed_tests\<close> and \<open>failed_tests\<close> are common to both.
\<close>

datatype summary =
    PerformanceSummary (total_tests: nat) (passed_tests: nat) (failed_tests: nat)
      (test_breakdown: "(string \<times> breakdown) list")
  | DistributedSummary (total_nodes: int) (byzantine_tolerance: int)
      (total_tests: nat) (passed_tests: nat) (failed_tests: nat) (consensus_capable: bool)

text \<open>
  The suite's own \<open>start_time\<close> and \<open>end_time\<close> fields are named \<open>suite_start_time\<close>
  and \<open>suite_end_time\<close> here, apart from those of a TestResult.
\<close>

record TestSuite =
  suite_name :: string
  suite_start_time :: real
  suite_end_time :: real
  node_count :: int
  results :: "TestResult list"
  summary :: summary

subsection \<open>Percentile\<close>

definition percentile :: "real list \<Rightarrow> int \<Rightarrow> exn + real" where
  "percentile data p =
     (if data = [] then Inr 0
      else
        let sorted_data = sort data;
            index = (real_of_int p / 100) * (real (length sorted_data) - 1)
        in if index = real_of_int (py_trunc index)
           then py_getitem sorted_data (py_trunc index)
           else bindE (py_getitem sorted_data (py_trunc index)) (\<lambda>lower.
                bindE (py_getitem sorted_data (py_trunc index + 1)) (\<lambda>upper.
                Inr (lower + (upper - lower) * (index - real_of_int (py_trunc index))))))"

subsection \<open>Summaries\<close>

text \<open>
  \<open>by_test\<close> is a dictionary from test name to the list of its results, in insertion
  order: an association list with distinct keys.
\<close>

definition count_success :: "TestResult list \<Rightarrow> nat" where
  "count_success rs = length (filter success rs)"

definition count_failure :: "TestResult list \<Rightarrow> nat" where
  "count_failure rs = length (filter (\<lambda>r. \<not> success r) rs)"

definition by_test_add :: "(string \<times> TestResult list) list \<Rightarrow> TestResult \<Rightarrow> (string \<times> TestResult list) list" where
  "by_test_add by_test r =
     (let by_test' = (if test_name r \<notin> fst ` set by_test then by_test @ [(test_name r, [])] else by_test)
      in map (\<lambda>(k, v). if k = test_name r then (k, v @ [r]) else (k, v)) by_test')"

definition group_by_test :: "TestResult list \<Rightarrow> (string \<times> TestResult list) list" where
  "group_by_test rs = foldl by_test_add [] rs"

text \<open>The number of results held by the groups of \<open>by_test\<close>.\<close>

definition grouped_size :: "(string \<times> TestResult list) list \<Rightarrow> nat" where
  "grouped_size g = sum_list (map (\<lambda>kv. length (snd kv)) g)"

definition breakdown_of :: "TestResult list \<Rightarrow> breakdown" where
  "breakdown_of test_results =
     (let passed = count_success test_results; total = length test_results
      in \<lparr>total = total, passed = passed, failed = total - passed,
          success_rate = (if total > 0 then real passed / real total else 0)\<rparr>)"

definition calculate_performance_summary :: "TestResult list \<Rightarrow> summary" where
  "calculate_performance_summary rs =
     PerformanceSummary (length rs) (count_success rs) (count_failure rs)
       (map (\<lambda>(test_name, test_results). (test_name, breakdown_of test_results)) (group_by_test rs))"

definition calculate_distributed_summary :: "TestResult list \<Rightarrow> int \<Rightarrow> summary" where
  "calculate_distributed_summary rs nodes =
     DistributedSummary nodes (nodes div 3) (length rs) (count_success rs) (count_failure rs)
       (list_all success rs)"

subsection \<open>Environment\<close>

text \<open>
  \<open>time.time()\<close> is read from the environment: the readings are parameters of the model.
  \<open>task_times name node\<close> are the two readings a task takes at its start and end,
  \<open>failure_times node\<close> the two readings taken when a thrown exception is converted, and
  \<open>suite_times\<close> the readings bracketing a suite.
\<close>

record clock =
  task_times :: "string \<Rightarrow> int \<Rightarrow> real \<times> real"
  failure_times :: "int \<Rightarrow> real \<times> real"
  suite_times :: "real \<times> real"

text \<open>A clock that always reads zero, for evaluating the model on concrete runs.\<close>

definition still_clock :: clock where
  "still_clock = \<lparr>task_times = (\<lambda>name node. (0, 0)), failure_times = (\<lambda>node. (0, 0)), suite_times = (0, 0)\<rparr>"

definition py_min :: "real list \<Rightarrow> exn + real" where
  "py_min xs = (if xs = [] then Inl (Exn ''ValueError'' ''min() arg is an empty sequence'')
                else Inr (Min (set xs)))"

definition py_max :: "real list \<Rightarrow> exn + real" where
  "py_max xs = (if xs = [] then Inl (Exn ''ValueError'' ''max() arg is an empty sequence'')
                else Inr (Max (set xs)))"

fun mapE :: "('v \<Rightarrow> 'err + 'w) \<Rightarrow> 'v list \<Rightarrow> 'err + 'w list" where
  "mapE f [] = Inr []"
| "mapE f (x # xs) = bindE (f x) (\<lambda>y. bindE (mapE f xs) (\<lambda>ys. Inr (y # ys)))"

definition stdev_or_zero :: "real list \<Rightarrow> exn + real" where
  "stdev_or_zero latencies = (if length latencies > 1 then statistics_stdev latencies else Inr 0)"

subsection \<open>Performance scenario groups\<close>

definition ai_inference_metrics :: "int \<Rightarrow> int \<Rightarrow> exn + (string \<times> real) list" where
  "ai_inference_metrics nid iterations =
     (let latencies = map (\<lambda>i. 20.5 + real_of_int i * 0.1 + real_of_int nid * 0.5)
                          (py_range iterations)
      in bindE (statistics_mean latencies) (\<lambda>mean_latency.
         bindE (percentile latencies 95) (\<lambda>p95.
         bindE (percentile latencies 99) (\<lambda>p99.
         bindE (stdev_or_zero latencies) (\<lambda>std_dev.
         bindE (py_min latencies) (\<lambda>min_latency.
         bindE (py_max latencies) (\<lambda>max_latency.
         Inr [(''mean_latency_us'', mean_latency), (''p95_latency_us'', p95),
              (''p99_latency_us'', p99), (''std_dev_us'', std_dev),
              (''min_latency_us'', min_latency), (''max_latency_us'', max_latency),
              (''iterations'', real_of_int iterations)])))))))"

text \<open>The task catches every exception of its body and returns a failed result.\<close>

definition run_single_ai_inference_test :: "clock \<Rightarrow> int \<Rightarrow> int \<Rightarrow> TestResult" where
  "run_single_ai_inference_test clk nid iterations =
     (case ai_inference_metrics nid iterations of
        Inr ms \<Rightarrow>
          \<lparr>test_name = ''ai_inference'', node_id = nid,
           start_time = fst (task_times clk ''ai_inference'' nid),
           end_time = snd (task_times clk ''ai_inference'' nid),
           success = (the (map_of ms ''p99_latency_us'') < 40),
           metrics = ms,
           logs = [''AI inference test completed on node '' @ str_int nid],
           error_message = None\<rparr>
      | Inl e \<Rightarrow>
          \<lparr>test_name = ''ai_inference'', node_id = nid,
           start_time = fst (task_times clk ''ai_inference'' nid),
           end_time = snd (task_times clk ''ai_inference'' nid),
           success = False, metrics = [], logs = [],
           error_message = Some (str_exn e)\<rparr>)"

text \<open>
  \<open>isinstance(e, Exception)\<close>: false of the classes that derive from BaseException but
  not from Exception (of these, a cancelled task gives \<open>asyncio.gather\<close> a
  CancelledError as its outcome), true of every other exception.
\<close>

definition isinstance_Exception :: "exn \<Rightarrow> bool" where
  "isinstance_Exception e =
     (exn_class e \<notin> set [''CancelledError'', ''KeyboardInterrupt'', ''SystemExit'', ''GeneratorExit''])"

text \<open>
  The loop over the outcomes of the gathered tasks: the outcome of the task of a node is
  either the exception it threw or the TestResult it returned, in node order starting
  from 1. An outcome that is an instance of Exception becomes a failed TestResult; any
  other outcome is appended as it is, so the list the loop builds can hold an exception
  object (\<open>Inl\<close>) among the TestResults (\<open>Inr\<close>).
\<close>

definition convert_outcome :: "clock \<Rightarrow> int \<Rightarrow> exn + TestResult \<Rightarrow> exn + TestResult" where
  "convert_outcome clk nid outcome =
     (case outcome of
        Inl e \<Rightarrow>
          if isinstance_Exception e
          then Inr \<lparr>test_name = ''ai_inference'', node_id = nid,
                    start_time = fst (failure_times clk nid),
                    end_time = snd (failure_times clk nid),
                    success = False, metrics = [], logs = [],
                    error_message = Some (str_exn e)\<rparr>
          else Inl e
      | Inr r \<Rightarrow> Inr r)"

fun collect_node_results :: "clock \<Rightarrow> int \<Rightarrow> (exn + TestResult) list \<Rightarrow> (exn + TestResult) list" where
  "collect_node_results clk nid [] = []"
| "collect_node_results clk nid (outcome # rest) =
     convert_outcome clk nid outcome # collect_node_results clk (nid + 1) rest"

definition run_ai_inference_tests :: "clock \<Rightarrow> int \<Rightarrow> int \<Rightarrow> (exn + TestResult) list" where
  "run_ai_inference_tests clk nodes iterations =
     collect_node_results clk 1
       (map (\<lambda>nid. Inr (run_single_ai_inference_test clk nid iterations)) [1 .. nodes])"

text \<open>
  The summary reads \<open>result.test_name\<close> and \<open>result.success\<close> of every element of the
  list it is given: on an element that is not a TestResult the attribute access raises
  AttributeError. \<open>test_results_of\<close> is that reading: the TestResults of a list all of
  whose elements are TestResults.
\<close>

definition no_attribute :: "exn \<Rightarrow> exn" where
  "no_attribute e =
     Exn ''AttributeError''
       ([CHR 0x27] @ exn_class e @ [CHR 0x27] @ '' object has no attribute ''
        @ [CHR 0x27] @ ''test_name'' @ [CHR 0x27])"

fun test_results_of :: "(exn + TestResult) list \<Rightarrow> exn + TestResult list" where
  "test_results_of [] = Inr []"
| "test_results_of (Inr r # rest) = bindE (test_results_of rest) (\<lambda>rs. Inr (r # rs))"
| "test_results_of (Inl e # rest) = Inl (no_attribute e)"

definition context_switch_result :: "clock \<Rightarrow> int \<Rightarrow> int \<Rightarrow> exn + TestResult" where
  "context_switch_result clk iterations nid =
     (let latencies = map (\<lambda>i. 300.0 + real_of_int i * 0.1 + real_of_int nid * 2.0)
                          (py_range iterations)
      in bindE (statistics_mean latencies) (\<lambda>mean_latency.
         bindE (percentile latencies 95) (\<lambda>p95.
         bindE (percentile latencies 99) (\<lambda>p99.
         bindE (stdev_or_zero latencies) (\<lambda>std_dev.
         Inr \<lparr>test_name = ''context_switch'', node_id = nid,
              start_time = fst (task_times clk ''context_switch'' nid),
              end_time = snd (task_times clk ''context_switch'' nid),
              success = (p95 < 500),
              metrics = [(''mean_latency_ns'', mean_latency), (''p95_latency_ns'', p95),
                         (''p99_latency_ns'', p99), (''std_dev_ns'', std_dev),
                         (''iterations'', real_of_int iterations)],
              logs = [''Context switch test completed on node '' @ str_int nid],
              error_message = None\<rparr>)))))"

definition run_context_switch_tests :: "clock \<Rightarrow> int \<Rightarrow> int \<Rightarrow> exn + TestResult list" where
  "run_context_switch_tests clk nodes iterations =
     mapE (context_switch_result clk iterations) [1 .. nodes]"

definition memory_allocation_result :: "clock \<Rightarrow> int \<Rightarrow> int \<Rightarrow> exn + TestResult" where
  "memory_allocation_result clk iterations nid =
     (let latencies = map (\<lambda>i. 150.0 + real_of_int i * 0.05 + real_of_int nid * 1.0)
                          (py_range iterations)
      in bindE (statistics_mean latencies) (\<lambda>mean_latency.
         bindE (percentile latencies 99) (\<lambda>p99.
         bindE (stdev_or_zero latencies) (\<lambda>std_dev.
         Inr \<lparr>test_name = ''memory_allocation'', node_id = nid,
              start_time = fst (task_times clk ''memory_allocation'' nid),
              end_time = snd (task_times clk ''memory_allocation'' nid),
              success = (p99 < 1000),
              metrics = [(''mean_latency_ns'', mean_latency), (''p99_latency_ns'', p99),
                         (''std_dev_ns'', std_dev), (''iterations'', real_of_int iterations)],
              logs = [''Memory allocation test completed on node '' @ str_int nid],
              error_message = None\<rparr>))))"

definition run_memory_allocation_tests :: "clock \<Rightarrow> int \<Rightarrow> int \<Rightarrow> exn + TestResult list" where
  "run_memory_allocation_tests clk nodes iterations =
     mapE (memory_allocation_result clk iterations) [1 .. nodes]"

definition throughput_result :: "clock \<Rightarrow> int \<Rightarrow> int \<Rightarrow> TestResult" where
  "throughput_result clk iterations nid =
     (let throughput = 1000000 + nid * 10000
      in \<lparr>test_name = ''throughput'', node_id = nid,
          start_time = fst (task_times clk ''throughput'' nid),
          end_time = snd (task_times clk ''throughput'' nid),
          success = (throughput > 500000),
          metrics = [(''ops_per_second'', real_of_int throughput),
                     (''total_operations'', real_of_int iterations),
                     (''test_duration_ms'', 100.0)],
          logs = [''Throughput test completed on node '' @ str_int nid],
          error_message = None\<rparr>)"

definition run_throughput_tests :: "clock \<Rightarrow> int \<Rightarrow> int \<Rightarrow> TestResult list" where
  "run_throughput_tests clk nodes iterations = map (throughput_result clk iterations) [1 .. nodes]"

definition run_performance_benchmark :: "clock \<Rightarrow> int \<Rightarrow> int \<Rightarrow> exn + TestSuite" where
  "run_performance_benchmark clk nodes iterations =
     (let inference_results = run_ai_inference_tests clk nodes iterations
      in bindE (run_context_switch_tests clk nodes iterations) (\<lambda>context_results.
         bindE (run_memory_allocation_tests clk nodes iterations) (\<lambda>memory_results.
         let throughput_results = run_throughput_tests clk nodes iterations;
             gathered = inference_results @ map Inr context_results @ map Inr memory_results
                        @ map Inr throughput_results
         in bindE (test_results_of gathered) (\<lambda>rs.
            Inr \<lparr>suite_name = ''performance_benchmark'',
                 suite_start_time = fst (suite_times clk),
                 suite_end_time = snd (suite_times clk),
                 node_count = nodes,
                 results = rs,
                 summary = calculate_performance_summary rs\<rparr>))))"

subsection \<open>Distributed consensus suite\<close>

text \<open>
  The scenarios of this suite run one after the other. Each begins by waiting
  (\<open>asyncio.sleep\<close>), so the trace of events a run leaves shows which scenarios were
  started.
\<close>

datatype event = LogInfo string | Sleep real

definition run_byzantine_consensus_test :: "clock \<Rightarrow> int \<Rightarrow> event list \<times> TestResult" where
  "run_byzantine_consensus_test clk nodes =
     (let f = nodes div 3;
          consensus_time_ms = 3.5 + real_of_int nodes * 0.1
      in ([Sleep 2.0],
          \<lparr>test_name = ''byzantine_consensus'', node_id = 0,
           start_time = fst (task_times clk ''byzantine_consensus'' 0),
           end_time = snd (task_times clk ''byzantine_consensus'' 0),
           success = (consensus_time_ms < 5.0),
           metrics = [(''consensus_time_ms'', consensus_time_ms),
                      (''total_nodes'', real_of_int nodes),
                      (''byzantine_nodes'', real_of_int f),
                      (''rounds'', 3),
                      (''messages_exchanged'', real_of_int (nodes * (nodes - 1) * 3))],
           logs = [''Byzantine consensus test with '' @ str_int nodes @ '' nodes, f='' @ str_int f],
           error_message = None\<rparr>))"

definition run_leader_election_test :: "clock \<Rightarrow> int \<Rightarrow> event list \<times> TestResult" where
  "run_leader_election_test clk nodes =
     (let election_time_ms = 75.0 + real_of_int nodes * 2.0
      in ([Sleep 0.5],
          \<lparr>test_name = ''leader_election'', node_id = 0,
           start_time = fst (task_times clk ''leader_election'' 0),
           end_time = snd (task_times clk ''leader_election'' 0),
           success = (election_time_ms < 100.0),
           metrics = [(''election_time_ms'', election_time_ms),
                      (''total_nodes'', real_of_int nodes),
                      (''rounds'', 2)],
           logs = [''Leader election test with '' @ str_int nodes @ '' nodes''],
           error_message = None\<rparr>))"

definition run_partition_recovery_test :: "clock \<Rightarrow> int \<Rightarrow> event list \<times> TestResult" where
  "run_partition_recovery_test clk nodes =
     (let recovery_time_ms = 200.0 + real_of_int nodes * 5.0
      in ([Sleep 1.0],
          \<lparr>test_name = ''partition_recovery'', node_id = 0,
           start_time = fst (task_times clk ''partition_recovery'' 0),
           end_time = snd (task_times clk ''partition_recovery'' 0),
           success = (recovery_time_ms < 500.0),
           metrics = [(''recovery_time_ms'', recovery_time_ms),
                      (''total_nodes'', real_of_int nodes),
                      (''partitioned_nodes'', real_of_int (nodes div 2))],
           logs = [''Partition recovery test with '' @ str_int nodes @ '' nodes''],
           error_message = None\<rparr>))"

definition run_distributed_consensus_tests :: "clock \<Rightarrow> int \<Rightarrow> event list \<times> (exn + TestSuite)" where
  "run_distributed_consensus_tests clk nodes =
     (let started = [LogInfo (''Starting distributed consensus tests: '' @ str_int nodes @ '' nodes'')]
      in if nodes < 4
         then (started,
               Inl (Exn ''ValueError''
                     (''Distributed consensus requires at least 4 nodes, got '' @ str_int nodes)))
         else
           let (ev1, consensus_result) = run_byzantine_consensus_test clk nodes;
               (ev2, leader_result) = run_leader_election_test clk nodes;
               (ev3, partition_result) = run_partition_recovery_test clk nodes;
               rs = [consensus_result, leader_result, partition_result]
           in (started @ ev1 @ ev2 @ ev3,
               Inr \<lparr>suite_name = ''distributed_consensus'',
                    suite_start_time = fst (suite_times clk),
                    suite_end_time = snd (suite_times clk),
                    node_count = nodes,
                    results = rs,
                    summary = calculate_distributed_summary rs nodes\<rparr>))"

section \<open>Soak report statistics (\<open>soak_report.py\<close>)\<close>

text \<open>
  \<open>calculate_statistics\<close> returns a dictionary from field name to number, empty for
  fewer than two values. \<open>int(len(values) * 0.95)\<close> is the integer part of
  \<open>0.95 \<sdot> n\<close>.
\<close>

definition calculate_statistics :: "real list \<Rightarrow> exn + (string \<times> real) list" where
  "calculate_statistics values =
     (if values = [] \<or> length values < 2 then Inr []
      else
        bindE (py_min values) (\<lambda>min_v.
        bindE (py_max values) (\<lambda>max_v.
        bindE (statistics_mean values) (\<lambda>mean_v.
        bindE (statistics_median values) (\<lambda>median_v.
        bindE (if length values > 1 then statistics_stdev values else Inr 0) (\<lambda>stdev_v.
        bindE (if length values > 20
               then py_getitem (sort values) (py_trunc (real (length values) * 0.95))
               else py_max values) (\<lambda>p95.
        bindE (if length values > 100
               then py_getitem (sort values) (py_trunc (real (length values) * 0.99))
               else py_max values) (\<lambda>p99.
        Inr [(''count'', real (length values)), (''min'', min_v), (''max'', max_v),
             (''mean'', mean_v), (''median'', median_v), (''stdev'', stdev_v),
             (''p95'', p95), (''p99'', p99)]))))))))"

definition z_score :: "real \<Rightarrow> real \<Rightarrow> real \<Rightarrow> real" where
  "z_score mean_v stdev_v v = (if stdev_v > 0 then \<bar>v - mean_v\<bar> / stdev_v else 0)"

definition detect_anomalies :: "real list \<Rightarrow> real \<Rightarrow> exn + nat list" where
  "detect_anomalies values threshold =
     (if length values < 10 then Inr []
      else
        bindE (statistics_mean values) (\<lambda>mean_v.
        bindE (statistics_stdev values) (\<lambda>stdev_v.
        Inr (map fst (filter (\<lambda>(i, v). z_score mean_v stdev_v v > threshold)
                             (enumerate 0 values))))))"

text \<open>
  The detector as the specification words it, with the population standard deviation
  (divisor \<open>n\<close>), for comparison with \<open>detect_anomalies\<close>.
\<close>

definition population_stdev :: "real list \<Rightarrow> real" where
  "population_stdev xs =
     (let m = sum_list xs / real (length xs)
      in sqrt (sum_list (map (\<lambda>x. (x - m)\<^sup>2) xs) / real (length xs)))"

definition spec_detect_anomalies_population :: "real list \<Rightarrow> real \<Rightarrow> nat list" where
  "spec_detect_anomalies_population values threshold =
     (if length values < 10 then []
      else
        let mean_v = sum_list values / real (length values);
            stdev_v = population_stdev values
        in map fst (filter (\<lambda>(i, v). z_score mean_v stdev_v v > threshold)
                           (enumerate 0 values)))"

section \<open>Results documents\<close>

text \<open>
  A parsed JSON value. A JSON object is a Python dictionary, kept as an association list
  read by first match. A number is a real; Python's \<open>True\<close> and \<open>False\<close> behave as
  the numbers 1 and 0 in arithmetic, comparison and hashing.

  The operations below are the ones the validators apply to values of unknown type; each
  raises where Python raises. Only the class of such an exception is kept, its text is
  not modelled.
\<close>

datatype json =
    JNull
  | JBool bool
  | JNum real
  | JStr string
  | JArr "json list"
  | JObj "(string \<times> json) list"

datatype pyerr = TypeError | AttributeError | KeyError

definition is_prefix :: "string \<Rightarrow> string \<Rightarrow> bool" where
  "is_prefix needle s = (take (length needle) s = needle)"

fun contains_str :: "string \<Rightarrow> string \<Rightarrow> bool" where
  "contains_str needle [] = (needle = [])"
| "contains_str needle (c # cs) = (is_prefix needle (c # cs) \<or> contains_str needle cs)"

definition dict_get :: "(string \<times> json) list \<Rightarrow> string \<Rightarrow> json \<Rightarrow> json" where
  "dict_get kvs k dflt = (case map_of kvs k of Some v \<Rightarrow> v | None \<Rightarrow> dflt)"

definition dict_has :: "(string \<times> json) list \<Rightarrow> string \<Rightarrow> bool" where
  "dict_has kvs k = (k \<in> fst ` set kvs)"

text \<open>\<open>x.get(k, dflt)\<close>: only a dictionary has the method.\<close>

fun py_get :: "json \<Rightarrow> string \<Rightarrow> json \<Rightarrow> pyerr + json" where
  "py_get (JObj kvs) k dflt = Inr (dict_get kvs k dflt)"
| "py_get x k dflt = Inl AttributeError"

text \<open>\<open>needle in x\<close> for a string \<open>needle\<close>.\<close>

fun py_in :: "string \<Rightarrow> json \<Rightarrow> pyerr + bool" where
  "py_in needle (JStr s) = Inr (contains_str needle s)"
| "py_in needle (JArr xs) = Inr (JStr needle \<in> set xs)"
| "py_in needle (JObj kvs) = Inr (dict_has kvs needle)"
| "py_in needle x = Inl TypeError"

text \<open>
  \<open>x[k]\<close> for a string key: a dictionary is read (KeyError for a missing key), any
  other value raises TypeError.
\<close>

fun py_subscript :: "json \<Rightarrow> string \<Rightarrow> pyerr + json" where
  "py_subscript (JObj kvs) k = (case map_of kvs k of Some v \<Rightarrow> Inr v | None \<Rightarrow> Inl KeyError)"
| "py_subscript x k = Inl TypeError"

fun py_truthy :: "json \<Rightarrow> bool" where
  "py_truthy JNull = False"
| "py_truthy (JBool b) = b"
| "py_truthy (JNum r) = (r \<noteq> 0)"
| "py_truthy (JStr s) = (s \<noteq> [])"
| "py_truthy (JArr xs) = (xs \<noteq> [])"
| "py_truthy (JObj kvs) = (kvs \<noteq> [])"

fun py_len :: "json \<Rightarrow> pyerr + nat" where
  "py_len (JStr s) = Inr (length s)"
| "py_len (JArr xs) = Inr (length xs)"
| "py_len (JObj kvs) = Inr (length (remdups (map fst kvs)))"
| "py_len x = Inl TypeError"

text \<open>Iteration: a list yields its elements, a dictionary its keys, a string its characters.\<close>

fun py_iter :: "json \<Rightarrow> pyerr + json list" where
  "py_iter (JArr xs) = Inr xs"
| "py_iter (JObj kvs) = Inr (map JStr (remdups (map fst kvs)))"
| "py_iter (JStr s) = Inr (map (\<lambda>c. JStr [c]) s)"
| "py_iter x = Inl TypeError"

fun py_num :: "json \<Rightarrow> pyerr + real" where
  "py_num (JNum r) = Inr r"
| "py_num (JBool b) = Inr (if b then 1 else 0)"
| "py_num x = Inl TypeError"

text \<open>\<open>sep.join(items)\<close>: every item must be a string.\<close>

fun py_strs :: "json list \<Rightarrow> pyerr + string list" where
  "py_strs [] = Inr []"
| "py_strs (JStr s # rest) = bindE (py_strs rest) (\<lambda>ss. Inr (s # ss))"
| "py_strs (x # rest) = Inl TypeError"

fun join_with :: "string \<Rightarrow> string list \<Rightarrow> string" where
  "join_with sep [] = []"
| "join_with sep [s] = s"
| "join_with sep (s # t # rest) = s @ sep @ join_with sep (t # rest)"

definition py_join :: "string \<Rightarrow> json list \<Rightarrow> pyerr + string" where
  "py_join sep items = bindE (py_strs items) (\<lambda>ss. Inr (join_with sep ss))"

section \<open>Validation gate (\<open>validate_results.py\<close>)\<close>

text \<open>
  A finding stands for one message of the validator: the constructor is the message
  template and its arguments are the values the template interpolates.
\<close>

datatype finding =
    OverallScoreBelow real
  | CoverageBelowRequired string real
  | CoverageBelowRecommended string real
  | MemorySafetyViolations nat
  | CriticalVulnerabilities nat
  | PerformanceTestsFailing string
  | AIAccuracyBelow real
  | CouldNotParseAIAccuracy string
  | TooManyFailures nat
  | FailedTests string
  | MissingSections string
  | NoValidationResults
  | UnexpectedError pyerr


fun is_failed_claim_finding :: "finding \<Rightarrow> bool" where
  "is_failed_claim_finding (MemorySafetyViolations n) = True"
| "is_failed_claim_finding (CriticalVulnerabilities n) = True"
| "is_failed_claim_finding (PerformanceTestsFailing m) = True"
| "is_failed_claim_finding (TooManyFailures n) = True"
| "is_failed_claim_finding (FailedTests m) = True"
| "is_failed_claim_finding f = False"

text \<open>
  The validator object: its two lists grow as the checks run. A check takes the
  validator and returns it updated, together with the exception it raised, if any: what
  was appended before a raise stays appended.
\<close>

record validator =
  validation_errors :: "finding list"
  warnings :: "finding list"

type_synonym check = "validator \<Rightarrow> validator \<times> pyerr option"

definition add_error :: "finding \<Rightarrow> validator \<Rightarrow> validator" where
  "add_error f v = v\<lparr>validation_errors := validation_errors v @ [f]\<rparr>"

definition add_warning :: "finding \<Rightarrow> validator \<Rightarrow> validator" where
  "add_warning f v = v\<lparr>warnings := warnings v @ [f]\<rparr>"

definition then_check :: "check \<Rightarrow> check \<Rightarrow> check" where
  "then_check c1 c2 v = (case c1 v of (v', Some e) \<Rightarrow> (v', Some e) | (v', None) \<Rightarrow> c2 v')"

datatype emit = Quiet | EmitError finding | EmitWarning finding

fun apply_emit :: "emit \<Rightarrow> validator \<Rightarrow> validator" where
  "apply_emit Quiet v = v"
| "apply_emit (EmitError f) v = add_error f v"
| "apply_emit (EmitWarning f) v = add_warning f v"

text \<open>A loop whose body, per item, raises or appends at most one finding.\<close>

fun emit_loop :: "('a \<Rightarrow> pyerr + emit) \<Rightarrow> 'a list \<Rightarrow> check" where
  "emit_loop body [] v = (v, None)"
| "emit_loop body (x # xs) v =
     (case body x of
        Inl e \<Rightarrow> (v, Some e)
      | Inr em \<Rightarrow> emit_loop body xs (apply_emit em v))"

definition THRESHOLDS :: "(string \<times> real) list" where
  "THRESHOLDS =
     [(''overall_score_minimum'', 80.0),
      (''security_coverage_minimum'', 100.0),
      (''correctness_coverage_minimum'', 100.0),
      (''performance_coverage_minimum'', 50.0),
      (''ai_coverage_minimum'', 95.0),
      (''memory_safety_violations_maximum'', 0),
      (''critical_vulnerabilities_maximum'', 0),
      (''ai_accuracy_minimum'', 99.9),
      (''max_acceptable_failures'', 2)]"

definition threshold_of :: "string \<Rightarrow> real" where
  "threshold_of k = the (map_of THRESHOLDS k)"

definition validate_overall_score :: "(string \<times> json) list \<Rightarrow> check" where
  "validate_overall_score doc v =
     (case bindE (py_get (dict_get doc ''summary'' (JObj [])) ''overall_score'' (JNum 0.0)) py_num of
        Inl e \<Rightarrow> (v, Some e)
      | Inr overall_score \<Rightarrow>
          (if overall_score < threshold_of ''overall_score_minimum''
           then (add_error (OverallScoreBelow overall_score) v, None)
           else (v, None)))"

definition coverage_checks :: "(string \<times> string \<times> string) list" where
  "coverage_checks =
     [(''security_coverage'', ''security_coverage_minimum'', ''Security''),
      (''correctness_coverage'', ''correctness_coverage_minimum'', ''Correctness''),
      (''performance_coverage'', ''performance_coverage_minimum'', ''Performance''),
      (''ai_coverage'', ''ai_coverage_minimum'', ''AI/ML'')]"

definition coverage_step :: "json \<Rightarrow> string \<times> string \<times> string \<Rightarrow> pyerr + emit" where
  "coverage_step coverage chk =
     (case chk of (coverage_key, threshold_key, name) \<Rightarrow>
        bindE (bindE (py_get coverage coverage_key (JNum 0.0)) py_num) (\<lambda>x.
          let actual = x * 100; required = threshold_of threshold_key
          in if actual < required
             then (if threshold_key \<in> set [''security_coverage_minimum'', ''correctness_coverage_minimum'']
                   then Inr (EmitError (CoverageBelowRequired name actual))
                   else Inr (EmitWarning (CoverageBelowRecommended name actual)))
             else Inr Quiet))"

definition validate_coverage :: "(string \<times> json) list \<Rightarrow> check" where
  "validate_coverage doc v =
     emit_loop (coverage_step (dict_get doc ''coverage'' (JObj []))) coverage_checks v"

text \<open>
  Whether one entry of \<open>validation_results\<close> counts as a failed claim whose text
  contains \<open>needle\<close>.
\<close>

definition is_failed_match :: "string \<Rightarrow> json \<Rightarrow> pyerr + bool" where
  "is_failed_match needle entry =
     bindE (py_get entry ''claim'' (JStr [])) (\<lambda>claim.
     bindE (py_in needle claim) (\<lambda>hit.
       if hit then bindE (py_get entry ''passed'' (JBool True)) (\<lambda>p. Inr (\<not> py_truthy p))
       else Inr False))"

definition count_failed_matching :: "string \<Rightarrow> json \<Rightarrow> pyerr + nat" where
  "count_failed_matching needle validation_results =
     bindE (py_iter validation_results) (\<lambda>entries.
     bindE (mapE (is_failed_match needle) entries) (\<lambda>bs.
     Inr (length (filter (\<lambda>b. b) bs))))"

definition validate_security_metrics :: "(string \<times> json) list \<Rightarrow> check" where
  "validate_security_metrics doc v =
     (case count_failed_matching ''Memory Safety'' (dict_get doc ''validation_results'' (JArr [])) of
        Inl e \<Rightarrow> (v, Some e)
      | Inr memory_violations \<Rightarrow>
          let v1 = (if real memory_violations > threshold_of ''memory_safety_violations_maximum''
                    then add_error (MemorySafetyViolations memory_violations) v else v)
          in (case count_failed_matching ''Vulnerabilities'' (dict_get doc ''validation_results'' (JArr [])) of
                Inl e \<Rightarrow> (v1, Some e)
              | Inr critical_vulns \<Rightarrow>
                  (if real critical_vulns > threshold_of ''critical_vulnerabilities_maximum''
                   then add_error (CriticalVulnerabilities critical_vulns) v1 else v1, None)))"

definition performance_failure :: "json \<Rightarrow> pyerr + json list" where
  "performance_failure entry =
     bindE (py_get entry ''claim'' (JStr [])) (\<lambda>claim.
     bindE (py_in ''Inference'' claim) (\<lambda>inference.
     bindE (if inference then Inr True else py_in ''Context Switch'' claim) (\<lambda>hit.
       if hit then bindE (py_get entry ''passed'' (JBool True)) (\<lambda>p.
                     Inr (if \<not> py_truthy p then [claim] else []))
       else Inr [])))"

definition performance_failures :: "json \<Rightarrow> pyerr + json list" where
  "performance_failures validation_results =
     bindE (py_iter validation_results) (\<lambda>entries.
     bindE (mapE performance_failure entries) (\<lambda>cs. Inr (concat cs)))"

definition validate_performance_metrics :: "(string \<times> json) list \<Rightarrow> check" where
  "validate_performance_metrics doc v =
     (case bindE (performance_failures (dict_get doc ''validation_results'' (JArr []))) (\<lambda>fs.
             if length fs > 0
             then bindE (py_join '', '' fs) (\<lambda>m. Inr (EmitWarning (PerformanceTestsFailing m)))
             else Inr Quiet) of
        Inl e \<Rightarrow> (v, Some e)
      | Inr em \<Rightarrow> (apply_emit em v, None))"

text \<open>
  \<open>float(...)\<close> is Python's parser of a numeral: the model takes it as the parameter
  \<open>parse_float\<close>, which returns \<open>None\<close> where \<open>float\<close> raises ValueError.
\<close>

definition ai_step :: "(string \<Rightarrow> real option) \<Rightarrow> json \<Rightarrow> pyerr + emit" where
  "ai_step parse_float entry =
     bindE (py_get entry ''claim'' (JStr [])) (\<lambda>claim.
     bindE (py_in ''Inference Accuracy'' claim) (\<lambda>hit.
       if \<not> hit then Inr Quiet
       else bindE (py_get entry ''passed'' (JBool True)) (\<lambda>p.
         if \<not> py_truthy p then Inr Quiet
         else bindE (py_get entry ''measured'' (JStr ''0%'')) (\<lambda>measured.
           case measured of
             JStr m \<Rightarrow>
               (case parse_float (filter (\<lambda>c. c \<noteq> CHR ''%'') m) of
                  Some accuracy \<Rightarrow>
                    if accuracy < threshold_of ''ai_accuracy_minimum''
                    then Inr (EmitError (AIAccuracyBelow accuracy))
                    else Inr Quiet
                | None \<Rightarrow> Inr (EmitWarning (CouldNotParseAIAccuracy m)))
           | _ \<Rightarrow> Inl AttributeError))))"

definition validate_ai_metrics :: "(string \<Rightarrow> real option) \<Rightarrow> (string \<times> json) list \<Rightarrow> check" where
  "validate_ai_metrics parse_float doc v =
     (case py_iter (dict_get doc ''validation_results'' (JArr [])) of
        Inl e \<Rightarrow> (v, Some e)
      | Inr entries \<Rightarrow> emit_loop (ai_step parse_float) entries v)"

definition failed_test :: "json \<Rightarrow> pyerr + json list" where
  "failed_test entry =
     bindE (py_get entry ''passed'' (JBool True)) (\<lambda>p.
       if \<not> py_truthy p
       then bindE (py_get entry ''claim'' (JStr ''Unknown test'')) (\<lambda>claim. Inr [claim])
       else Inr [])"

definition failed_tests_of :: "json \<Rightarrow> pyerr + json list" where
  "failed_tests_of validation_results =
     bindE (py_iter validation_results) (\<lambda>entries.
     bindE (mapE failed_test entries) (\<lambda>cs. Inr (concat cs)))"

definition validate_test_execution :: "(string \<times> json) list \<Rightarrow> check" where
  "validate_test_execution doc v =
     (case failed_tests_of (dict_get doc ''validation_results'' (JArr [])) of
        Inl e \<Rightarrow> (v, Some e)
      | Inr failed_claims \<Rightarrow>
          let total_failures = length failed_claims
          in if real total_failures > threshold_of ''max_acceptable_failures''
             then (let v1 = add_error (TooManyFailures total_failures) v
                   in case py_join '', '' failed_claims of
                        Inl e \<Rightarrow> (v1, Some e)
                      | Inr m \<Rightarrow> (add_error (FailedTests m) v1, None))
             else (v, None))"

definition validate_data_integrity :: "(string \<times> json) list \<Rightarrow> check" where
  "validate_data_integrity doc v =
     (let required_sections = [''summary'', ''coverage'', ''validation_results''];
          missing_sections = filter (\<lambda>section. \<not> dict_has doc section) required_sections;
          v1 = (if missing_sections \<noteq> []
                then add_error (MissingSections (join_with '', '' missing_sections)) v else v)
      in case py_len (dict_get doc ''validation_results'' (JArr [])) of
           Inl e \<Rightarrow> (v1, Some e)
         | Inr n \<Rightarrow> (if n = 0 then add_error NoValidationResults v1 else v1, None))"

definition all_checks :: "(string \<Rightarrow> real option) \<Rightarrow> (string \<times> json) list \<Rightarrow> check" where
  "all_checks parse_float doc =
     then_check (validate_data_integrity doc)
    (then_check (validate_overall_score doc)
    (then_check (validate_coverage doc)
    (then_check (validate_security_metrics doc)
    (then_check (validate_performance_metrics doc)
    (then_check (validate_ai_metrics parse_float doc)
                (validate_test_execution doc))))))"

definition new_validator :: validator where
  "new_validator = \<lparr>validation_errors = [], warnings = []\<rparr>"

text \<open>
  \<open>run_validation\<close> returns the triple (success, errors, warnings); an exception of any
  check is caught and becomes the only error of the triple.
\<close>

definition run_validation :: "(string \<Rightarrow> real option) \<Rightarrow> (string \<times> json) list \<Rightarrow> bool \<times> finding list \<times> finding list" where
  "run_validation parse_float doc =
     (case all_checks parse_float doc new_validator of
        (v, None) \<Rightarrow> (length (validation_errors v) = 0, validation_errors v, warnings v)
      | (v, Some e) \<Rightarrow> (False, [UnexpectedError e], []))"

text \<open>
  \<open>main\<close> on a document that was read and parsed: the verdict after the strict-mode
  step, and the exit code.
\<close>

definition main :: "(string \<Rightarrow> real option) \<Rightarrow> bool \<Rightarrow> (string \<times> json) list \<Rightarrow> (bool \<times> finding list \<times> finding list) \<times> int" where
  "main parse_float strict doc =
     (case run_validation parse_float doc of
        (ok, errors, warns) \<Rightarrow>
          let verdict = (if strict \<and> warns \<noteq> [] then (False, errors @ warns, []) else (ok, errors, warns))
          in (verdict, if fst verdict then 0 else 1))"

text \<open>
  Auxiliary notions for stating properties of the gate: an entry that is a dictionary
  without the key \<open>passed\<close>, and a validator none of whose findings reports a failed
  claim.
\<close>

fun lacks_passed :: "json \<Rightarrow> bool" where
  "lacks_passed (JObj kvs) = (\<not> dict_has kvs ''passed'')"
| "lacks_passed x = False"

definition no_failed_claim_findings :: "validator \<Rightarrow> bool" where
  "no_failed_claim_findings v =
     (list_all (\<lambda>f. \<not> is_failed_claim_finding f) (validation_errors v) \<and>
      list_all (\<lambda>f. \<not> is_failed_claim_finding f) (warnings v))"

fun emit_unrelated :: "emit \<Rightarrow> bool" where
  "emit_unrelated Quiet = True"
| "emit_unrelated (EmitError f) = (\<not> is_failed_claim_finding f)"
| "emit_unrelated (EmitWarning f) = (\<not> is_failed_claim_finding f)"


section \<open>Stress results validation (\<open>validate_stress_results.py\<close>)\<close>

record ValidationError =
  message :: string
  severity :: string

text \<open>
  \<open>set(values)\<close> needs hashable values, and counts values equal in Python once: a
  number and a boolean of the same value are one element.
\<close>

datatype pykey = KNone | KNum real | KStr string

fun py_hash_key :: "json \<Rightarrow> pyerr + pykey" where
  "py_hash_key JNull = Inr KNone"
| "py_hash_key (JBool b) = Inr (KNum (if b then 1 else 0))"
| "py_hash_key (JNum r) = Inr (KNum r)"
| "py_hash_key (JStr s) = Inr (KStr s)"
| "py_hash_key x = Inl TypeError"

definition memory_section :: "json \<Rightarrow> pyerr + json list" where
  "memory_section r =
     bindE (py_in ''memory'' r) (\<lambda>has.
       if has then bindE (py_get r ''memory'' JNull) (\<lambda>m. Inr [m]) else Inr [])"

definition metric_value :: "string \<Rightarrow> json \<Rightarrow> pyerr + json list" where
  "metric_value key m =
     bindE (py_in key m) (\<lambda>has.
       if has then bindE (py_subscript m key) (\<lambda>x. Inr [x]) else Inr [])"

definition metric_values :: "string \<Rightarrow> json list \<Rightarrow> pyerr + json list" where
  "metric_values key memory_results =
     bindE (mapE (metric_value key) memory_results) (\<lambda>xs. Inr (concat xs))"

text \<open>\<open>values and len(set(values)) == 1\<close>\<close>

definition single_valued :: "json list \<Rightarrow> pyerr + bool" where
  "single_valued vals =
     (if vals = [] then Inr False
      else bindE (mapE py_hash_key vals) (\<lambda>ks. Inr (length (remdups ks) = 1)))"

definition peak_pressure_advisory :: "nat \<Rightarrow> ValidationError" where
  "peak_pressure_advisory n =
     \<lparr>message = ''No variability in memory peak pressure across '' @ str_nat n @ '' runs'',
      severity = ''warning''\<rparr>"

definition oom_events_advisory :: "nat \<Rightarrow> ValidationError" where
  "oom_events_advisory n =
     \<lparr>message = ''No variability in OOM events across '' @ str_nat n @ '' runs'',
      severity = ''warning''\<rparr>"

definition validate_variability :: "json \<Rightarrow> json list \<Rightarrow> pyerr + ValidationError list" where
  "validate_variability doc historical =
     (if length historical < 2 then Inr []
      else
        bindE (mapE memory_section historical) (\<lambda>ms.
        let memory_results = concat ms
        in if length memory_results \<ge> 3
           then
             bindE (metric_values ''peak_pressure'' memory_results) (\<lambda>peak_pressures.
             bindE (single_valued peak_pressures) (\<lambda>flat_pressure.
             bindE (metric_values ''oom_events'' memory_results) (\<lambda>oom_events.
             bindE (single_valued oom_events) (\<lambda>flat_oom.
               Inr ((if flat_pressure then [peak_pressure_advisory (length peak_pressures)] else [])
                    @ (if flat_oom then [oom_events_advisory (length oom_events)] else []))))))
           else Inr []))"

section \<open>Properties of the percentile\<close>

lemma Ints_floor_iff: "(x::real) \<in> \<int> \<longleftrightarrow> x = real_of_int \<lfloor>x\<rfloor>"
proof
  assume "x \<in> \<int>"
  then obtain k where "x = real_of_int k" by (auto elim: Ints_cases)
  then show "x = real_of_int \<lfloor>x\<rfloor>" by simp
next
  assume e: "x = real_of_int \<lfloor>x\<rfloor>"
  have "real_of_int \<lfloor>x\<rfloor> \<in> \<int>" by (rule Ints_of_int)
  with e show "x \<in> \<int>" by simp
qed

lemma sort_eq_Nil_iff: "sort (xs::real list) = [] \<longleftrightarrow> xs = []"
  by (metis length_sort length_0_conv)

lemma sorted_nth0_Min:
  assumes "sorted (s::real list)" "s \<noteq> []"
  shows "s ! 0 = Min (set s)"
proof -
  have "s ! 0 \<in> set s" using assms by simp
  moreover have "\<And>y. y \<in> set s \<Longrightarrow> s ! 0 \<le> y"
    using assms by (metis in_set_conv_nth le0 sorted_nth_mono)
  ultimately show ?thesis by (intro Min_eqI[symmetric]) auto
qed

lemma sorted_last_Max:
  assumes "sorted (s::real list)" "s \<noteq> []"
  shows "s ! (length s - 1) = Max (set s)"
proof -
  have "s ! (length s - 1) \<in> set s" using assms by simp
  moreover have "\<And>y. y \<in> set s \<Longrightarrow> y \<le> s ! (length s - 1)"
  proof -
    fix y assume "y \<in> set s"
    then obtain i where "i < length s" "s ! i = y" by (auto simp: in_set_conv_nth)
    then show "y \<le> s ! (length s - 1)"
      using assms sorted_nth_mono[of s i "length s - 1"] by auto
  qed
  ultimately show ?thesis by (intro Max_eqI[symmetric]) auto
qed

lemma percentile_0:
  assumes "xs \<noteq> []"
  shows "percentile xs 0 = Inr (Min (set xs))"
proof -
  have "sort xs ! 0 = Min (set xs)"
    using sorted_nth0_Min[of "sort xs"] assms by (simp add: sort_eq_Nil_iff)
  then show ?thesis
    using assms by (simp add: percentile_def py_trunc_def py_getitem_def Let_def sort_eq_Nil_iff)
qed

lemma percentile_100:
  assumes "xs \<noteq> []"
  shows "percentile xs 100 = Inr (Max (set xs))"
proof -
  have n: "0 < length xs" using assms by simp
  have m: "sort xs ! (length xs - 1) = Max (set xs)"
    using sorted_last_Max[of "sort xs"] assms by (simp add: sort_eq_Nil_iff)
  have idx: "real (length xs) - 1 = real_of_int (int (length xs) - 1)" by simp
  have t: "py_trunc (real (length xs) - 1) = int (length xs) - 1"
    unfolding idx py_trunc_def using n by (simp only: floor_of_int ceiling_of_int if_cancel)
  have nn: "nat (int (length xs) - 1) = length xs - 1" by simp
  show ?thesis
    using assms n m by (simp add: percentile_def t py_getitem_def Let_def nn)
qed

lemma percentile_interp:
  assumes ne: "xs \<noteq> []" and p: "0 \<le> p" "p \<le> 100"
    and idx: "idx = real_of_int p / 100 * (real (length xs) - 1)"
  shows "0 \<le> idx \<and> idx \<le> real (length xs) - 1"
    and "idx \<in> \<int> \<Longrightarrow> percentile xs p = Inr (sort xs ! nat \<lfloor>idx\<rfloor>)"
    and "idx \<notin> \<int> \<Longrightarrow> percentile xs p =
           Inr (sort xs ! nat \<lfloor>idx\<rfloor> + (sort xs ! nat \<lceil>idx\<rceil> - sort xs ! nat \<lfloor>idx\<rfloor>) * (idx - real_of_int \<lfloor>idx\<rfloor>))"
proof -
  have n: "1 \<le> real (length xs)" using ne by (cases xs) auto
  have q0: "0 \<le> real_of_int p / 100" using p by simp
  have q1: "real_of_int p / 100 \<le> 1" using p by simp
  show b: "0 \<le> idx \<and> idx \<le> real (length xs) - 1"
  proof
    show "0 \<le> idx" unfolding idx using q0 n by simp
    have "real_of_int p / 100 * (real (length xs) - 1) \<le> 1 * (real (length xs) - 1)"
      using q1 n by (intro mult_right_mono) auto
    then show "idx \<le> real (length xs) - 1" unfolding idx by simp
  qed
  have tr: "py_trunc idx = \<lfloor>idx\<rfloor>" using b by (simp add: py_trunc_def)
  have fl0: "0 \<le> \<lfloor>idx\<rfloor>" using b by simp
  have flle: "\<lfloor>idx\<rfloor> \<le> int (length xs) - 1"
  proof -
    have "idx < real_of_int (int (length xs))" using b by simp
    then have "\<lfloor>idx\<rfloor> < int (length xs)" by (simp only: floor_less_iff)
    then show ?thesis by simp
  qed
  have P: "percentile xs p =
      (if idx = real_of_int \<lfloor>idx\<rfloor> then py_getitem (sort xs) \<lfloor>idx\<rfloor>
       else bindE (py_getitem (sort xs) \<lfloor>idx\<rfloor>) (\<lambda>lower.
            bindE (py_getitem (sort xs) (\<lfloor>idx\<rfloor> + 1)) (\<lambda>upper.
            Inr (lower + (upper - lower) * (idx - real_of_int \<lfloor>idx\<rfloor>)))))"
    unfolding percentile_def Let_def length_sort idx[symmetric] tr using ne by (simp only: if_False)
  have g0: "py_getitem (sort xs) \<lfloor>idx\<rfloor> = Inr (sort xs ! nat \<lfloor>idx\<rfloor>)"
    using fl0 flle by (simp add: py_getitem_def Let_def)
  {
    assume "idx \<in> \<int>"
    then have "idx = real_of_int \<lfloor>idx\<rfloor>" by (simp only: Ints_floor_iff)
    then show "percentile xs p = Inr (sort xs ! nat \<lfloor>idx\<rfloor>)"
      using P g0 by simp
  }
  {
    assume ni: "idx \<notin> \<int>"
    then have neq: "idx \<noteq> real_of_int \<lfloor>idx\<rfloor>" by (simp only: Ints_floor_iff not_False_eq_True)
    have c: "\<lceil>idx\<rceil> = \<lfloor>idx\<rfloor> + 1" using neq by (simp add: ceiling_altdef)
    have "idx \<noteq> real (length xs) - 1"
    proof
      assume "idx = real (length xs) - 1"
      then have "idx = real_of_int (int (length xs) - 1)" by simp
      moreover have "real_of_int (int (length xs) - 1) \<in> \<int>" by (rule Ints_of_int)
      ultimately show False using ni by simp
    qed
    then have "idx < real_of_int (int (length xs) - 1)" using b by simp
    then have "\<lfloor>idx\<rfloor> < int (length xs) - 1" by (simp add: floor_less_iff)
    moreover have "\<not> \<lfloor>idx\<rfloor> + 1 < 0" using fl0 by linarith
    ultimately have g1: "py_getitem (sort xs) (\<lfloor>idx\<rfloor> + 1) = Inr (sort xs ! nat (\<lfloor>idx\<rfloor> + 1))"
      unfolding py_getitem_def Let_def length_sort by (simp del: zero_le_floor)
    show "percentile xs p =
           Inr (sort xs ! nat \<lfloor>idx\<rfloor> + (sort xs ! nat \<lceil>idx\<rceil> - sort xs ! nat \<lfloor>idx\<rfloor>) * (idx - real_of_int \<lfloor>idx\<rfloor>))"
      using P g0 g1 neq by (simp add: bindE_def c)
  }
qed

lemma percentile_50:
  assumes ne: "xs \<noteq> []"
  shows "percentile xs 50 = statistics_median xs"
proof -
  define n where "n = length xs"
  define idx where "idx = real_of_int 50 / 100 * (real (length xs) - 1)"
  have n1: "1 \<le> n" using ne by (cases xs) (auto simp: n_def)
  have idx2: "idx = (real n - 1) / 2" by (simp add: idx_def n_def)
  note I = percentile_interp[OF ne _ _ idx_def]
  show ?thesis
  proof (cases "odd n")
    case True
    then obtain k where k: "n = 2 * k + 1" by (auto elim: oddE)
    have ik: "idx = real k" by (simp add: idx2 k)
    then have "idx \<in> \<int>" by simp
    then have "percentile xs 50 = Inr (sort xs ! nat \<lfloor>idx\<rfloor>)" using I(2) by simp
    moreover have "nat \<lfloor>idx\<rfloor> = n div 2" by (simp add: ik k)
    moreover have "n mod 2 = 1" using True by (simp add: odd_iff_mod_2_eq_one)
    ultimately show ?thesis
      using n1 ne by (simp add: statistics_median_def Let_def n_def[symmetric] sort_eq_Nil_iff)
  next
    case False
    then obtain k where k: "n = 2 * k" by (auto elim: evenE)
    with n1 have kp: "1 \<le> k" by simp
    have ik: "idx = real_of_int (int k - 1) + 1/2" using kp by (simp add: idx2 k)
    have fl: "\<lfloor>idx\<rfloor> = int k - 1" unfolding ik by (rule floor_unique) simp_all
    have ni: "idx \<notin> \<int>"
    proof
      assume "idx \<in> \<int>"
      then have "idx = real_of_int \<lfloor>idx\<rfloor>" by (simp only: Ints_floor_iff)
      then have "idx = real_of_int (int k - 1)" by (simp only: fl)
      then show False unfolding ik by simp
    qed
    have ce: "\<lceil>idx\<rceil> = int k" using ni fl by (simp add: ceiling_altdef Ints_floor_iff)
    have "percentile xs 50 =
       Inr (sort xs ! nat \<lfloor>idx\<rfloor> + (sort xs ! nat \<lceil>idx\<rceil> - sort xs ! nat \<lfloor>idx\<rfloor>) * (idx - real_of_int \<lfloor>idx\<rfloor>))"
      using I(3) ni by simp
    moreover have "idx - real_of_int \<lfloor>idx\<rfloor> = 1/2" unfolding fl unfolding ik by simp
    moreover have "nat \<lfloor>idx\<rfloor> = n div 2 - 1" by (simp add: fl k nat_diff_distrib')
    moreover have "nat \<lceil>idx\<rceil> = n div 2" by (simp add: ce k)
    moreover have "n mod 2 \<noteq> 1" "n \<noteq> 0" using False n1 by (auto simp: odd_iff_mod_2_eq_one)
    ultimately show ?thesis
      using ne by (simp add: statistics_median_def Let_def n_def[symmetric] sort_eq_Nil_iff field_simps)
  qed
qed

text \<open>
  C4. For every non-empty series, the percentile at 0 is the minimum, at 100 the maximum
  and at 50 the standard median (the mean of the two middle sorted elements when the
  length is even); the percentile of an empty series is 0; and for \<open>p\<close> between 0 and
  100 whose rank \<open>idx = p/100 * (len - 1)\<close> is not an integer, the result interpolates
  linearly between the sorted elements at the floor and the ceiling of the rank.
\<close>

theorem percentile_min_max_median_interpolation:
  "percentile [] p = Inr 0 \<and>
   (xs \<noteq> [] \<longrightarrow>
      percentile xs 0 = Inr (Min (set xs)) \<and>
      percentile xs 100 = Inr (Max (set xs)) \<and>
      percentile xs 50 =
        Inr (if odd (length xs) then sort xs ! (length xs div 2)
             else (sort xs ! (length xs div 2 - 1) + sort xs ! (length xs div 2)) / 2) \<and>
      percentile xs 50 = statistics_median xs) \<and>
   (xs \<noteq> [] \<and> 0 \<le> p \<and> p \<le> 100 \<and> real_of_int p / 100 * (real (length xs) - 1) \<notin> \<int> \<longrightarrow>
      (let idx = real_of_int p / 100 * (real (length xs) - 1);
           lower = sort xs ! nat \<lfloor>idx\<rfloor>;
           upper = sort xs ! nat \<lceil>idx\<rceil>
       in percentile xs p = Inr (lower + (upper - lower) * (idx - real_of_int \<lfloor>idx\<rfloor>))))"
proof (intro conjI impI)
  show "percentile [] p = Inr 0" by (simp add: percentile_def)
next
  assume "xs \<noteq> []"
  then show "percentile xs 0 = Inr (Min (set xs))" by (rule percentile_0)
next
  assume "xs \<noteq> []"
  then show "percentile xs 100 = Inr (Max (set xs))" by (rule percentile_100)
next
  assume ne: "xs \<noteq> []"
  then have "length xs \<noteq> 0" by simp
  then show "percentile xs 50 =
        Inr (if odd (length xs) then sort xs ! (length xs div 2)
             else (sort xs ! (length xs div 2 - 1) + sort xs ! (length xs div 2)) / 2)"
    unfolding percentile_50[OF ne] statistics_median_def Let_def length_sort
    by (simp add: odd_iff_mod_2_eq_one)
next
  assume "xs \<noteq> []"
  then show "percentile xs 50 = statistics_median xs" by (rule percentile_50)
next
  assume h: "xs \<noteq> [] \<and> 0 \<le> p \<and> p \<le> 100 \<and> real_of_int p / 100 * (real (length xs) - 1) \<notin> \<int>"
  show "let idx = real_of_int p / 100 * (real (length xs) - 1);
           lower = sort xs ! nat \<lfloor>idx\<rfloor>;
           upper = sort xs ! nat \<lceil>idx\<rceil>
       in percentile xs p = Inr (lower + (upper - lower) * (idx - real_of_int \<lfloor>idx\<rfloor>))"
    unfolding Let_def using percentile_interp(3)[OF _ _ _ refl, of xs p] h by blast
qed

theorem percentile_min_max_median_interpolation_witness:
  "percentile [3, 1, 2, 4] 0 = Inr 1 \<and>
   percentile [3, 1, 2, 4] 100 = Inr 4 \<and>
   percentile [3, 1, 2, 4] 50 = Inr (5 / 2) \<and>
   percentile [3, 1, 2, 4] 25 = Inr (7 / 4)"
proof -
  have s: "sort [3, 1, 2, 4 :: real] = [1, 2, 3, 4]" by simp
  have i: "real_of_int 25 / 100 * (real (length [3, 1, 2, 4 :: real]) - 1) = 3 / 4" by simp
  have f: "\<lfloor>3 / 4 :: real\<rfloor> = 0" by simp
  have c: "\<lceil>3 / 4 :: real\<rceil> = 1" by simp
  have n: "(3 / 4 :: real) \<notin> \<int>"
  proof
    assume "(3 / 4 :: real) \<in> \<int>"
    then have "(3 / 4 :: real) = real_of_int \<lfloor>3 / 4 :: real\<rfloor>" by (simp only: Ints_floor_iff)
    then show False by simp
  qed
  have ne: "[3, 1, 2, 4 :: real] \<noteq> []" by simp
  have h: "[3, 1, 2, 4 :: real] \<noteq> [] \<and> (0::int) \<le> 25 \<and> (25::int) \<le> 100 \<and>
           real_of_int 25 / 100 * (real (length [3, 1, 2, 4 :: real]) - 1) \<notin> \<int>"
    unfolding i using n by simp
  note T = percentile_min_max_median_interpolation[of 25 "[3, 1, 2, 4]"]
  from T ne have a: "percentile [3, 1, 2, 4] 0 = Inr (Min (set [3, 1, 2, 4 :: real]))"
    and b: "percentile [3, 1, 2, 4] 100 = Inr (Max (set [3, 1, 2, 4 :: real]))"
    and m: "percentile [3, 1, 2, 4] 50 =
        Inr (if odd (length [3, 1, 2, 4 :: real]) then sort [3, 1, 2, 4] ! (length [3, 1, 2, 4 :: real] div 2)
             else (sort [3, 1, 2, 4] ! (length [3, 1, 2, 4 :: real] div 2 - 1) + sort [3, 1, 2, 4] ! (length [3, 1, 2, 4 :: real] div 2)) / 2)"
    by blast+
  from T h have "let idx = real_of_int 25 / 100 * (real (length [3, 1, 2, 4 :: real]) - 1);
           lower = sort [3, 1, 2, 4] ! nat \<lfloor>idx\<rfloor>;
           upper = sort [3, 1, 2, 4] ! nat \<lceil>idx\<rceil>
       in percentile [3, 1, 2, 4] 25 = Inr (lower + (upper - lower) * (idx - real_of_int \<lfloor>idx\<rfloor>))"
    by blast
  then have q: "percentile [3, 1, 2, 4] 25 = Inr (7 / 4)"
    unfolding Let_def i f c s by simp
  from a have a': "percentile [3, 1, 2, 4] 0 = Inr 1" by simp
  from b have b': "percentile [3, 1, 2, 4] 100 = Inr 4" by simp
  from m have m': "percentile [3, 1, 2, 4] 50 = Inr (5 / 2)" unfolding s by simp
  from a' b' m' q show ?thesis by blast
qed

section \<open>Properties of the orchestrator\<close>

lemma count_success_le: "count_success rs \<le> length rs"
  by (simp add: count_success_def)

lemma breakdown_of_total: "total (breakdown_of rs) = length rs"
  by (simp add: breakdown_of_def Let_def)

lemma breakdown_of_parts: "passed (breakdown_of rs) + failed (breakdown_of rs) = total (breakdown_of rs)"
  using count_success_le[of rs] by (simp add: breakdown_of_def Let_def)

lemma grouped_size_update_absent:
  "k \<notin> fst ` set g \<Longrightarrow> map (\<lambda>(k', v). if k' = k then (k', v @ [r]) else (k', v)) g = g"
  by (induction g) auto

lemma grouped_size_update_present:
  "k \<in> fst ` set g \<Longrightarrow> distinct (map fst g) \<Longrightarrow>
   grouped_size (map (\<lambda>(k', v). if k' = k then (k', v @ [r]) else (k', v)) g) = Suc (grouped_size g)"
proof (induction g)
  case Nil
  then show ?case by simp
next
  case (Cons kv g)
  obtain k' v where kv: "kv = (k', v)" by (cases kv)
  show ?case
  proof (cases "k' = k")
    case True
    then have "k \<notin> fst ` set g" using Cons.prems(2) kv by auto
    then show ?thesis
      using True kv by (simp add: grouped_size_def grouped_size_update_absent)
  next
    case False
    then have "k \<in> fst ` set g" using Cons.prems(1) kv by auto
    moreover have "distinct (map fst g)" using Cons.prems(2) by simp
    ultimately have "grouped_size (map (\<lambda>(k', v). if k' = k then (k', v @ [r]) else (k', v)) g)
                      = Suc (grouped_size g)"
      by (rule Cons.IH)
    then show ?thesis using False kv by (simp add: grouped_size_def)
  qed
qed

lemma keys_update:
  "map fst (map (\<lambda>(k', v). if k' = k then (k', v @ [r]) else (k', v)) g) = map fst g"
  by (induction g) auto

lemma by_test_add_invariant:
  assumes "distinct (map fst g)"
  shows "distinct (map fst (by_test_add g r)) \<and> grouped_size (by_test_add g r) = Suc (grouped_size g)"
proof (cases "test_name r \<in> fst ` set g")
  case True
  have e: "by_test_add g r = map (\<lambda>(k', v). if k' = test_name r then (k', v @ [r]) else (k', v)) g"
    using True by (simp add: by_test_add_def)
  have "distinct (map fst (by_test_add g r))"
    unfolding e keys_update using assms .
  moreover have "grouped_size (by_test_add g r) = Suc (grouped_size g)"
    unfolding e using True assms by (rule grouped_size_update_present)
  ultimately show ?thesis by simp
next
  case False
  let ?g' = "g @ [(test_name r, [])]"
  have d: "distinct (map fst ?g')" using assms False by auto
  have m: "test_name r \<in> fst ` set ?g'" by simp
  have "grouped_size (map (\<lambda>(k', v). if k' = test_name r then (k', v @ [r]) else (k', v)) ?g')
          = Suc (grouped_size ?g')"
    using m d by (rule grouped_size_update_present)
  moreover have "grouped_size ?g' = grouped_size g" by (simp add: grouped_size_def)
  moreover have "by_test_add g r = map (\<lambda>(k', v). if k' = test_name r then (k', v @ [r]) else (k', v)) ?g'"
    using False by (simp add: by_test_add_def)
  moreover have "distinct (map fst (map (\<lambda>(k', v). if k' = test_name r then (k', v @ [r]) else (k', v)) ?g'))"
    unfolding keys_update using d .
  ultimately show ?thesis by simp
qed

lemma foldl_by_test_add_invariant:
  "distinct (map fst g) \<Longrightarrow>
   distinct (map fst (foldl by_test_add g rs)) \<and>
   grouped_size (foldl by_test_add g rs) = grouped_size g + length rs"
proof (induction rs arbitrary: g)
  case Nil
  then show ?case by simp
next
  case (Cons r rs)
  from by_test_add_invariant[OF Cons.prems, of r]
  have d: "distinct (map fst (by_test_add g r))"
    and s: "grouped_size (by_test_add g r) = Suc (grouped_size g)" by simp_all
  from Cons.IH[OF d] s show ?case by simp
qed

lemma group_by_test_size: "grouped_size (group_by_test rs) = length rs"
  using foldl_by_test_add_invariant[of "[]" rs] by (simp add: group_by_test_def grouped_size_def)

lemma group_by_test_distinct: "distinct (map fst (group_by_test rs))"
  using foldl_by_test_add_invariant[of "[]" rs] by (simp add: group_by_test_def)

lemma breakdown_totals_sum:
  "sum_list (map (\<lambda>(name, b). total b) (test_breakdown (calculate_performance_summary rs))) = length rs"
proof -
  have e: "map (\<lambda>(name, b). total b)
          (map (\<lambda>(test_name, test_results). (test_name, breakdown_of test_results)) g)
        = map (\<lambda>kv. length (snd kv)) g" for g
    by (induction g) (auto simp: breakdown_of_total)
  have "test_breakdown (calculate_performance_summary rs)
          = map (\<lambda>(test_name, test_results). (test_name, breakdown_of test_results)) (group_by_test rs)"
    by (simp add: calculate_performance_summary_def)
  then show ?thesis
    unfolding e using group_by_test_size[of rs] by (simp only: e grouped_size_def)
qed

lemma breakdown_entries_parts:
  "(name, b) \<in> set (test_breakdown (calculate_performance_summary rs)) \<Longrightarrow>
   passed b + failed b = total b"
  by (auto simp: calculate_performance_summary_def breakdown_of_parts)

lemma length_mapE: "mapE f xs = Inr ys \<Longrightarrow> length ys = length xs"
proof (induction xs arbitrary: ys)
  case Nil
  then show ?case by simp
next
  case (Cons x xs)
  then show ?case
    by (auto simp: bindE_def split: sum.splits)
qed

lemma length_collect_node_results: "length (collect_node_results clk k os) = length os"
  by (induction os arbitrary: k) auto


lemma collect_node_results_returned:
  "collect_node_results clk k (map Inr rs) = map Inr rs"
  by (induction rs arbitrary: k) (simp_all add: convert_outcome_def)

lemma test_results_of_returned: "test_results_of (map Inr rs) = Inr rs"
  by (induction rs) (simp_all add: bindE_def)

lemma test_results_of_all_returned: "test_results_of xs = Inr rs \<Longrightarrow> xs = map Inr rs"
proof (induction xs arbitrary: rs)
  case Nil
  then show ?case by simp
next
  case (Cons x xs)
  show ?case
  proof (cases x)
    case (Inl e)
    with Cons.prems show ?thesis by simp
  next
    case (Inr r)
    with Cons.prems obtain rs' where r: "test_results_of xs = Inr rs'" and e: "rs = r # rs'"
      by (auto simp: bindE_def split: sum.splits)
    from Cons.IH[OF r] Inr e show ?thesis by simp
  qed
qed

lemma run_ai_inference_tests_returned:
  "run_ai_inference_tests clk nodes iterations =
     map Inr (map (\<lambda>nid. run_single_ai_inference_test clk nid iterations) [1 .. nodes])"
  using collect_node_results_returned[of clk 1
      "map (\<lambda>nid. run_single_ai_inference_test clk nid iterations) [1 .. nodes]"]
  by (simp add: run_ai_inference_tests_def comp_def)

lemma performance_suite_summary:
  assumes "run_performance_benchmark clk nodes iterations = Inr suite"
  shows "summary suite = calculate_performance_summary (results suite)"
  using assms
  by (auto simp: run_performance_benchmark_def bindE_def Let_def split: sum.splits)

lemma distributed_suite_summary:
  assumes "snd (run_distributed_consensus_tests clk nodes) = Inr suite"
  shows "summary suite = calculate_distributed_summary (results suite) nodes \<and> length (results suite) = 3"
  using assms
  by (auto simp: run_distributed_consensus_tests_def Let_def split: if_splits prod.splits)

lemma percentile_defined:
  assumes "xs \<noteq> []" "0 \<le> p" "p \<le> 100"
  shows "\<exists>y. percentile xs p = Inr y"
proof (cases "real_of_int p / 100 * (real (length xs) - 1) \<in> \<int>")
  case True
  from percentile_interp(2)[OF assms refl True] show ?thesis by blast
next
  case False
  from percentile_interp(3)[OF assms refl False] show ?thesis by blast
qed

lemma stdev_or_zero_defined: "\<exists>y. stdev_or_zero xs = Inr y"
  by (simp add: stdev_or_zero_def statistics_stdev_def)

lemma py_range_nonempty: "0 < n \<Longrightarrow> map f (py_range n) \<noteq> []"
  by (simp add: py_range_def upto.simps)

lemma context_switch_result_defined:
  assumes "0 < iterations"
  shows "\<exists>r. context_switch_result clk iterations nid = Inr r"
proof -
  let ?l = "map (\<lambda>i. 300.0 + real_of_int i * 0.1 + real_of_int nid * 2.0) (py_range iterations)"
  have ne: "?l \<noteq> []" using assms by (rule py_range_nonempty)
  then obtain m where m: "statistics_mean ?l = Inr m" by (simp add: statistics_mean_def)
  obtain a where a: "percentile ?l 95 = Inr a" using percentile_defined[OF ne, of 95] by auto
  obtain b where b: "percentile ?l 99 = Inr b" using percentile_defined[OF ne, of 99] by auto
  obtain c where c: "stdev_or_zero ?l = Inr c" using stdev_or_zero_defined by blast
  show ?thesis
    unfolding context_switch_result_def Let_def m a b c bindE_def by simp
qed

lemma memory_allocation_result_defined:
  assumes "0 < iterations"
  shows "\<exists>r. memory_allocation_result clk iterations nid = Inr r"
proof -
  let ?l = "map (\<lambda>i. 150.0 + real_of_int i * 0.05 + real_of_int nid * 1.0) (py_range iterations)"
  have ne: "?l \<noteq> []" using assms by (rule py_range_nonempty)
  then obtain m where m: "statistics_mean ?l = Inr m" by (simp add: statistics_mean_def)
  obtain b where b: "percentile ?l 99 = Inr b" using percentile_defined[OF ne, of 99] by auto
  obtain c where c: "stdev_or_zero ?l = Inr c" using stdev_or_zero_defined by blast
  show ?thesis
    unfolding memory_allocation_result_def Let_def m b c bindE_def by simp
qed

lemma mapE_defined: "(\<And>x. \<exists>y. f x = Inr y) \<Longrightarrow> \<exists>ys. mapE f xs = Inr ys"
proof (induction xs)
  case Nil
  then show ?case by simp
next
  case (Cons x xs)
  from Cons.prems obtain y where "f x = Inr y" by blast
  moreover from Cons obtain ys where "mapE f xs = Inr ys" by blast
  ultimately show ?case by (simp add: bindE_def)
qed

lemma run_performance_benchmark_defined:
  assumes "0 < iterations"
  shows "\<exists>suite. run_performance_benchmark clk nodes iterations = Inr suite"
proof -
  obtain cs where cs: "run_context_switch_tests clk nodes iterations = Inr cs"
    unfolding run_context_switch_tests_def
    using mapE_defined[of "context_switch_result clk iterations"] context_switch_result_defined[OF assms]
    by blast
  obtain ms where ms: "run_memory_allocation_tests clk nodes iterations = Inr ms"
    unfolding run_memory_allocation_tests_def
    using mapE_defined[of "memory_allocation_result clk iterations"] memory_allocation_result_defined[OF assms]
    by blast
  let ?a = "map (\<lambda>nid. run_single_ai_inference_test clk nid iterations) [1 .. nodes]"
  let ?t = "run_throughput_tests clk nodes iterations"
  have g: "run_ai_inference_tests clk nodes iterations @ map Inr cs @ map Inr ms @ map Inr ?t
           = map Inr (?a @ cs @ ms @ ?t)"
    by (simp add: run_ai_inference_tests_returned)
  have "test_results_of (run_ai_inference_tests clk nodes iterations @ map Inr cs @ map Inr ms
          @ map Inr ?t) = Inr (?a @ cs @ ms @ ?t)"
    unfolding g by (rule test_results_of_returned)
  then show ?thesis
    by (simp add: run_performance_benchmark_def Let_def cs ms bindE_def)
qed

lemma length_upto_from_1: "length [1 .. n] = nat n"
  by simp

lemma run_performance_benchmark_length:
  assumes "run_performance_benchmark clk nodes iterations = Inr suite"
  shows "length (results suite) = 4 * nat nodes"
proof -
  from assms obtain cs ms where
    cs: "run_context_switch_tests clk nodes iterations = Inr cs" and
    ms: "run_memory_allocation_tests clk nodes iterations = Inr ms" and
    r: "test_results_of (run_ai_inference_tests clk nodes iterations @ map Inr cs @ map Inr ms
          @ map Inr (run_throughput_tests clk nodes iterations)) = Inr (results suite)"
    by (auto simp: run_performance_benchmark_def bindE_def Let_def split: sum.splits)
  have "length cs = nat nodes"
    using cs length_mapE[of _ "[1 .. nodes]" cs] by (simp add: run_context_switch_tests_def)
  moreover have "length ms = nat nodes"
    using ms length_mapE[of _ "[1 .. nodes]" ms] by (simp add: run_memory_allocation_tests_def)
  moreover have "length (run_ai_inference_tests clk nodes iterations) = nat nodes"
    by (simp add: run_ai_inference_tests_def length_collect_node_results)
  moreover have "length (run_throughput_tests clk nodes iterations) = nat nodes"
    by (simp add: run_throughput_tests_def)
  moreover have "length (results suite)
      = length (run_ai_inference_tests clk nodes iterations @ map Inr cs @ map Inr ms
          @ map Inr (run_throughput_tests clk nodes iterations))"
    using arg_cong[OF test_results_of_all_returned[OF r], of length] by simp
  ultimately show ?thesis by simp
qed

lemma distributed_suite_runs_all_scenarios:
  assumes "4 \<le> nodes"
  shows "\<exists>suite. run_distributed_consensus_tests clk nodes =
           ([LogInfo (''Starting distributed consensus tests: '' @ str_int nodes @ '' nodes''),
             Sleep 2.0, Sleep 0.5, Sleep 1.0], Inr suite)"
  using assms
  by (simp add: run_distributed_consensus_tests_def Let_def run_byzantine_consensus_test_def
      run_leader_election_test_def run_partition_recovery_test_def)

text \<open>
  C1. Every summary the orchestrator computes has \<open>total_tests\<close> equal to the number of
  results, for both suite kinds; in a performance summary the totals of the per-test
  breakdown add up to \<open>total_tests\<close> and each breakdown entry has passed + failed =
  total. The same holds of the summary stored in every suite
  \<open>run_performance_benchmark\<close> and \<open>run_distributed_consensus_tests\<close> return.
\<close>

theorem suite_summary_totals:
  "total_tests (calculate_performance_summary rs) = length rs \<and>
   sum_list (map (\<lambda>(name, b). total b) (test_breakdown (calculate_performance_summary rs)))
     = total_tests (calculate_performance_summary rs) \<and>
   (\<forall>(name, b) \<in> set (test_breakdown (calculate_performance_summary rs)).
      passed b + failed b = total b) \<and>
   total_tests (calculate_distributed_summary rs nodes) = length rs \<and>
   (run_performance_benchmark clk nodes iterations = Inr suite \<longrightarrow>
      total_tests (summary suite) = length (results suite) \<and>
      sum_list (map (\<lambda>(name, b). total b) (test_breakdown (summary suite)))
        = total_tests (summary suite) \<and>
      (\<forall>(name, b) \<in> set (test_breakdown (summary suite)). passed b + failed b = total b)) \<and>
   (snd (run_distributed_consensus_tests clk nodes) = Inr dsuite \<longrightarrow>
      total_tests (summary dsuite) = length (results dsuite))"
proof -
  have t: "total_tests (calculate_performance_summary xs) = length xs" for xs
    by (simp add: calculate_performance_summary_def)
  have s: "sum_list (map (\<lambda>(name, b). total b) (test_breakdown (calculate_performance_summary xs)))
     = total_tests (calculate_performance_summary xs)" for xs
    unfolding t by (rule breakdown_totals_sum)
  have p: "\<forall>(name, b) \<in> set (test_breakdown (calculate_performance_summary xs)).
      passed b + failed b = total b" for xs
    using breakdown_entries_parts[of _ _ xs] by blast
  have d: "total_tests (calculate_distributed_summary xs n) = length xs" for xs n
    by (simp add: calculate_distributed_summary_def)
  have perf: "total_tests (summary suite) = length (results suite) \<and>
      sum_list (map (\<lambda>(name, b). total b) (test_breakdown (summary suite)))
        = total_tests (summary suite) \<and>
      (\<forall>(name, b) \<in> set (test_breakdown (summary suite)). passed b + failed b = total b)"
    if "run_performance_benchmark clk nodes iterations = Inr suite"
    unfolding performance_suite_summary[OF that] using t s p by blast
  have dist: "total_tests (summary dsuite) = length (results dsuite)"
    if "snd (run_distributed_consensus_tests clk nodes) = Inr dsuite"
    using distributed_suite_summary[OF that] d by simp
  from t s p d perf dist show ?thesis by blast
qed

theorem suite_summary_totals_witness:
  "(\<exists>suite. run_performance_benchmark still_clock 2 3 = Inr suite \<and>
            total_tests (summary suite) = 8 \<and> length (results suite) = 8 \<and>
            sum_list (map (\<lambda>(name, b). total b) (test_breakdown (summary suite))) = 8) \<and>
   (\<exists>dsuite. snd (run_distributed_consensus_tests still_clock 4) = Inr dsuite \<and>
            total_tests (summary dsuite) = 3 \<and> length (results dsuite) = 3)"
proof -
  obtain suite where r: "run_performance_benchmark still_clock 2 3 = Inr suite"
    using run_performance_benchmark_defined[of 3 still_clock 2] by auto
  obtain dsuite where d0: "run_distributed_consensus_tests still_clock 4 = 
       ([LogInfo (''Starting distributed consensus tests: '' @ str_int 4 @ '' nodes''),
             Sleep 2.0, Sleep 0.5, Sleep 1.0], Inr dsuite)"
    using distributed_suite_runs_all_scenarios[of 4 still_clock] by auto
  then have d: "snd (run_distributed_consensus_tests still_clock 4) = Inr dsuite" by simp
  note T = suite_summary_totals[where clk = still_clock and nodes = 2 and iterations = 3 and suite = suite]
  note T' = suite_summary_totals[where clk = still_clock and nodes = 4 and dsuite = dsuite]
  have l: "length (results suite) = 8" using run_performance_benchmark_length[OF r] by simp
  have ld: "length (results dsuite) = 3" using distributed_suite_summary[OF d] by simp
  from T r have "total_tests (summary suite) = length (results suite)"
    and "sum_list (map (\<lambda>(name, b). total b) (test_breakdown (summary suite))) = total_tests (summary suite)"
    by blast+
  moreover from T' d have "total_tests (summary dsuite) = length (results dsuite)" by blast
  ultimately show ?thesis using r d l ld by auto
qed




text \<open>
  C3. A distributed-consensus run with fewer than four nodes raises ValueError: the run
  leaves only its opening log line, no scenario is started (no wait is recorded), and no
  suite and hence no TestResult comes back.
\<close>

theorem distributed_consensus_precondition:
  "nodes < 4 \<Longrightarrow>
   run_distributed_consensus_tests clk nodes =
     ([LogInfo (''Starting distributed consensus tests: '' @ str_int nodes @ '' nodes'')],
      Inl (Exn ''ValueError''
             (''Distributed consensus requires at least 4 nodes, got '' @ str_int nodes))) \<and>
   (\<forall>d. Sleep d \<notin> set (fst (run_distributed_consensus_tests clk nodes))) \<and>
   (\<forall>suite. snd (run_distributed_consensus_tests clk nodes) \<noteq> Inr suite)"
  by (simp add: run_distributed_consensus_tests_def Let_def)

theorem distributed_consensus_precondition_witness:
  "run_distributed_consensus_tests still_clock 3 =
     ([LogInfo ''Starting distributed consensus tests: 3 nodes''],
      Inl (Exn ''ValueError'' ''Distributed consensus requires at least 4 nodes, got 3''))"
proof -
  have "(3::int) < 4" by simp
  from distributed_consensus_precondition[OF this, of still_clock]
  show ?thesis by (simp add: str_int_def digit_char_def)
qed

section \<open>Properties of the soak report statistics\<close>

lemma sort_replicate: "sort (replicate n (v::real)) = replicate n v"
  by (rule sort_key_id_if_sorted) (simp add: sorted_replicate)

lemma mean_replicate: "0 < n \<Longrightarrow> sum_list (replicate n (v::real)) / real n = v"
  by (simp add: sum_list_replicate)

lemma sample_variance_replicate: "sample_variance (replicate n v) = 0"
proof (cases "n = 0")
  case True
  then show ?thesis by (simp add: sample_variance_def)
next
  case False
  then have m: "sum_list (replicate n v) / real n = v" by (simp add: mean_replicate)
  show ?thesis
    unfolding sample_variance_def Let_def length_replicate m
    by (simp add: map_replicate_const sum_list_replicate)
qed

lemma trunc_scaled_length:
  "py_trunc (real n * (real k / 100)) = int (n * k div 100)"
proof -
  have "real n * (real k / 100) = real (n * k) / real 100" by simp
  then have "\<lfloor>real n * (real k / 100)\<rfloor> = int (n * k div 100)"
    by (simp only: floor_divide_of_nat_eq)
  moreover have "0 \<le> real n * (real k / 100)" by simp
  ultimately show ?thesis by (simp only: py_trunc_def if_True)
qed

lemma getitem_in_range: "i < length xs \<Longrightarrow> py_getitem xs (int i) = Inr (xs ! i)"
  by (simp add: py_getitem_def)

lemma calculate_statistics_short:
  "length values < 2 \<Longrightarrow> calculate_statistics values = Inr []"
  by (simp add: calculate_statistics_def)

lemma calculate_statistics_fields:
  assumes "2 \<le> length values"
  shows "calculate_statistics values =
     Inr [(''count'', real (length values)),
          (''min'', Min (set values)),
          (''max'', Max (set values)),
          (''mean'', sum_list values / real (length values)),
          (''median'', if odd (length values) then sort values ! (length values div 2)
                       else (sort values ! (length values div 2 - 1) + sort values ! (length values div 2)) / 2),
          (''stdev'', sqrt (sum_list (map (\<lambda>x. (x - sum_list values / real (length values))\<^sup>2) values)
                            / (real (length values) - 1))),
          (''p95'', if length values > 20 then sort values ! (length values * 95 div 100)
                    else Max (set values)),
          (''p99'', if length values > 100 then sort values ! (length values * 99 div 100)
                    else Max (set values))]"
proof -
  let ?n = "length values"
  have ne: "values \<noteq> []" using assms by auto
  have c: "\<not> (values = [] \<or> ?n < 2)" using assms ne by simp
  have mn: "py_min values = Inr (Min (set values))" using ne by (simp add: py_min_def)
  have mx: "py_max values = Inr (Max (set values))" using ne by (simp add: py_max_def)
  have me: "statistics_mean values = Inr (sum_list values / real ?n)"
    using ne by (simp add: statistics_mean_def)
  have md: "statistics_median values =
      Inr (if odd ?n then sort values ! (?n div 2)
           else (sort values ! (?n div 2 - 1) + sort values ! (?n div 2)) / 2)"
    using assms ne by (simp add: statistics_median_def Let_def odd_iff_mod_2_eq_one sort_eq_Nil_iff)
  have sd: "(if ?n > 1 then statistics_stdev values else Inr 0) =
      Inr (sqrt (sum_list (map (\<lambda>x. (x - sum_list values / real ?n)\<^sup>2) values) / (real ?n - 1)))"
    using assms by (simp add: statistics_stdev_def sample_variance_def Let_def)
  have t95: "py_trunc (real ?n * 0.95) = int (?n * 95 div 100)"
    using trunc_scaled_length[of ?n 95] by simp
  have t99: "py_trunc (real ?n * 0.99) = int (?n * 99 div 100)"
    using trunc_scaled_length[of ?n 99] by simp
  have i95: "?n * 95 div 100 < length (sort values)" using assms by simp
  have i99: "?n * 99 div 100 < length (sort values)" using assms by simp
  have p95: "(if ?n > 20 then py_getitem (sort values) (py_trunc (real ?n * 0.95)) else py_max values)
      = Inr (if ?n > 20 then sort values ! (?n * 95 div 100) else Max (set values))"
    unfolding t95 getitem_in_range[OF i95] mx by simp
  have p99: "(if ?n > 100 then py_getitem (sort values) (py_trunc (real ?n * 0.99)) else py_max values)
      = Inr (if ?n > 100 then sort values ! (?n * 99 div 100) else Max (set values))"
    unfolding t99 getitem_in_range[OF i99] mx by simp
  show ?thesis
    unfolding calculate_statistics_def unfolding p95 p99 unfolding sd md me mn mx bindE_def using c
    by (simp only: if_False sum.case)
qed

lemma calculate_statistics_replicate:
  assumes "2 \<le> n"
  shows "calculate_statistics (replicate n v) =
     Inr [(''count'', real n), (''min'', v), (''max'', v), (''mean'', v), (''median'', v),
          (''stdev'', 0), (''p95'', v), (''p99'', v)]"
proof -
  have l: "2 \<le> length (replicate n v)" using assms by simp
  have n0: "0 < n" using assms by simp
  have s: "set (replicate n v) = {v}" using n0 by simp
  have m: "sum_list (replicate n v) / real n = v" using n0 by (rule mean_replicate)
  have var: "sum_list (map (\<lambda>x. (x - v)\<^sup>2) (replicate n v)) = 0"
    by (simp add: map_replicate_const sum_list_replicate)
  have i1: "n div 2 < n" "n div 2 - 1 < n" "n * 95 div 100 < n" "n * 99 div 100 < n"
    using n0 by simp_all
  show ?thesis
    unfolding calculate_statistics_fields[OF l] length_replicate sort_replicate s m var
    using i1 by simp
qed
lemma flagged_indices:
  "map fst (filter (\<lambda>(i, v). P v) (enumerate 0 xs)) = filter (\<lambda>i. P (xs ! i)) [0..<length xs]"
proof (induction xs rule: rev_induct)
  case Nil
  then show ?case by simp
next
  case (snoc x xs)
  have "filter (\<lambda>i. P ((xs @ [x]) ! i)) [0..<length xs] = filter (\<lambda>i. P (xs ! i)) [0..<length xs]"
    by (rule filter_cong) (auto simp: nth_append)
  then show ?case
    using snoc by (simp add: enumerate_append_eq)
qed

lemma detect_anomalies_short:
  "length values < 10 \<Longrightarrow> detect_anomalies values t = Inr []"
  by (simp add: detect_anomalies_def)

lemma detect_anomalies_indices:
  assumes "10 \<le> length values"
  shows "detect_anomalies values t =
     Inr (filter (\<lambda>i. z_score (sum_list values / real (length values))
                         (sqrt (sum_list (map (\<lambda>x. (x - sum_list values / real (length values))\<^sup>2) values)
                                / (real (length values) - 1)))
                         (values ! i) > t)
                 [0..<length values])"
proof -
  have ne: "values \<noteq> []" using assms by auto
  have me: "statistics_mean values = Inr (sum_list values / real (length values))"
    using ne by (simp add: statistics_mean_def)
  have sd: "statistics_stdev values =
      Inr (sqrt (sum_list (map (\<lambda>x. (x - sum_list values / real (length values))\<^sup>2) values)
                 / (real (length values) - 1)))"
    using assms by (simp add: statistics_stdev_def sample_variance_def Let_def)
  have c: "\<not> length values < 10" using assms by simp
  show ?thesis
    unfolding detect_anomalies_def me sd bindE_def flagged_indices using c
    by (simp only: if_False sum.case)
qed

lemma detect_anomalies_constant:
  assumes "0 \<le> t"
  shows "detect_anomalies (replicate n v) t = Inr []"
proof (cases "n < 10")
  case True
  then show ?thesis by (simp add: detect_anomalies_short)
next
  case False
  then have l: "10 \<le> length (replicate n v)" by simp
  have n0: "0 < n" using False by simp
  have m: "sum_list (replicate n v) / real n = v" using n0 by (rule mean_replicate)
  have var: "sum_list (map (\<lambda>x. (x - v)\<^sup>2) (replicate n v)) = 0"
    by (simp add: map_replicate_const sum_list_replicate)
  show ?thesis
    unfolding detect_anomalies_indices[OF l] length_replicate m var
    using assms by (simp add: z_score_def)
qed

lemma sqrt_100: "sqrt 100 = 10"
proof -
  have "sqrt ((10::real)\<^sup>2) = 10" by simp
  then show ?thesis by simp
qed

lemma sqrt_1000_11_bounds: "9 < sqrt (1000 / 11) \<and> sqrt (1000 / 11) < 10"
proof -
  have "sqrt ((9::real)\<^sup>2) < sqrt (1000 / 11)" by (simp only: real_sqrt_less_iff, simp)
  moreover have "sqrt (1000 / 11) < sqrt ((10::real)\<^sup>2)" by (simp only: real_sqrt_less_iff, simp)
  moreover have "sqrt ((9::real)\<^sup>2) = 9" by simp
  moreover have "sqrt ((10::real)\<^sup>2) = 10" by simp
  ultimately show ?thesis by simp
qed

text \<open>
  C5, as amended. \<open>calculate_statistics\<close> returns the empty dictionary for fewer than
  two values. For two or more it returns count, min, max, mean, median, the sample
  standard deviation (divisor \<open>n - 1\<close>), a p95 field that is the sorted element at index
  \<open>\<lfloor>0.95 n\<rfloor>\<close> when \<open>n > 20\<close> and the maximum otherwise, and a p99 field that is the
  sorted element at index \<open>\<lfloor>0.99 n\<rfloor>\<close> when \<open>n > 100\<close> and the maximum otherwise. For
  \<open>n \<ge> 2\<close> copies of one value \<open>v\<close> the standard deviation is 0 and min, max, mean,
  median, p95 and p99 are all \<open>v\<close>.
\<close>

theorem calculate_statistics_summary:
  "(length values < 2 \<longrightarrow> calculate_statistics values = Inr []) \<and>
   (2 \<le> length values \<longrightarrow>
      calculate_statistics values =
        Inr [(''count'', real (length values)),
             (''min'', Min (set values)),
             (''max'', Max (set values)),
             (''mean'', sum_list values / real (length values)),
             (''median'', if odd (length values) then sort values ! (length values div 2)
                          else (sort values ! (length values div 2 - 1)
                                + sort values ! (length values div 2)) / 2),
             (''stdev'', sqrt (sum_list (map (\<lambda>x. (x - sum_list values / real (length values))\<^sup>2) values)
                               / (real (length values) - 1))),
             (''p95'', if length values > 20 then sort values ! (length values * 95 div 100)
                       else Max (set values)),
             (''p99'', if length values > 100 then sort values ! (length values * 99 div 100)
                       else Max (set values))]) \<and>
   (2 \<le> n \<longrightarrow>
      calculate_statistics (replicate n v) =
        Inr [(''count'', real n), (''min'', v), (''max'', v), (''mean'', v), (''median'', v),
             (''stdev'', 0), (''p95'', v), (''p99'', v)])"
  using calculate_statistics_short[of "values"] calculate_statistics_fields[of "values"]
    calculate_statistics_replicate[of n v]
  by blast

theorem calculate_statistics_summary_witness:
  "calculate_statistics [5] = Inr [] \<and>
   calculate_statistics [2, 9, 4] =
     Inr [(''count'', 3), (''min'', 2), (''max'', 9), (''mean'', 5), (''median'', 4),
          (''stdev'', sqrt 13), (''p95'', 9), (''p99'', 9)] \<and>
   calculate_statistics [7, 7, 7] =
     Inr [(''count'', 3), (''min'', 7), (''max'', 7), (''mean'', 7), (''median'', 7),
          (''stdev'', 0), (''p95'', 7), (''p99'', 7)]"
proof -
  note T = calculate_statistics_summary[of "[5]" 3 7]
  note T' = calculate_statistics_summary[of "[2, 9, 4]" 3 7]
  have r: "replicate 3 (7::real) = [7, 7, 7]" by (simp add: numeral_3_eq_3)
  have a: "calculate_statistics [5] = Inr []" using T by simp
  have s: "sort [2, 9, 4 :: real] = [2, 4, 9]" by simp
  have "2 \<le> length [2, 9, 4 :: real]" by simp
  with T' have b: "calculate_statistics [2, 9, 4] =
        Inr [(''count'', real (length [2, 9, 4 :: real])),
             (''min'', Min (set [2, 9, 4])),
             (''max'', Max (set [2, 9, 4])),
             (''mean'', sum_list [2, 9, 4] / real (length [2, 9, 4 :: real])),
             (''median'', if odd (length [2, 9, 4 :: real]) then sort [2, 9, 4] ! (length [2, 9, 4 :: real] div 2)
                          else (sort [2, 9, 4] ! (length [2, 9, 4 :: real] div 2 - 1)
                                + sort [2, 9, 4] ! (length [2, 9, 4 :: real] div 2)) / 2),
             (''stdev'', sqrt (sum_list (map (\<lambda>x. (x - sum_list [2, 9, 4] / real (length [2, 9, 4 :: real]))\<^sup>2) [2, 9, 4])
                               / (real (length [2, 9, 4 :: real]) - 1))),
             (''p95'', if length [2, 9, 4 :: real] > 20 then sort [2, 9, 4] ! (length [2, 9, 4 :: real] * 95 div 100)
                       else Max (set [2, 9, 4])),
             (''p99'', if length [2, 9, 4 :: real] > 100 then sort [2, 9, 4] ! (length [2, 9, 4 :: real] * 99 div 100)
                       else Max (set [2, 9, 4]))]"
    by blast
  have b': "calculate_statistics [2, 9, 4] =
     Inr [(''count'', 3), (''min'', 2), (''max'', 9), (''mean'', 5), (''median'', 4),
          (''stdev'', sqrt 13), (''p95'', 9), (''p99'', 9)]"
    unfolding b s by (simp add: power2_eq_square)
  have c: "calculate_statistics [7, 7, 7] =
     Inr [(''count'', 3), (''min'', 7), (''max'', 7), (''mean'', 7), (''median'', 7),
          (''stdev'', 0), (''p95'', 7), (''p99'', 7)]"
    using T unfolding r by simp
  from a b' c show ?thesis by blast
qed

theorem calculate_statistics_counterexample:
  "calculate_statistics [5] = Inr [] \<and>
   bindE (calculate_statistics
            [1, 2, 3, 4, 5, 6, 7, 8, 9, 10, 11, 12, 13, 14, 15, 16, 17, 18, 19, 20, 21, 22])
         (\<lambda>d. Inr (map_of d ''p95'')) = Inr (Some 21) \<and>
   percentile [1, 2, 3, 4, 5, 6, 7, 8, 9, 10, 11, 12, 13, 14, 15, 16, 17, 18, 19, 20, 21, 22] 95
     = Inr (419 / 20)"
proof -
  let ?l = "[1, 2, 3, 4, 5, 6, 7, 8, 9, 10, 11, 12, 13, 14, 15, 16, 17, 18, 19, 20, 21, 22 :: real]"
  have a: "calculate_statistics [5] = Inr []" by (rule calculate_statistics_short) simp
  have s: "sort ?l = ?l" by (rule sort_key_id_if_sorted) simp
  have n: "length ?l = 22" by simp
  have l2: "2 \<le> length ?l" by simp
  have b: "bindE (calculate_statistics ?l) (\<lambda>d. Inr (map_of d ''p95'')) = Inr (Some 21)"
    unfolding calculate_statistics_fields[OF l2] s n bindE_def by simp
  have ne: "?l \<noteq> []" by simp
  have i: "real_of_int 95 / 100 * (real (length ?l) - 1) = 399 / 20" unfolding n by simp
  have f: "\<lfloor>399 / 20 :: real\<rfloor> = 19" by simp
  have c: "\<lceil>399 / 20 :: real\<rceil> = 20" by simp
  have ni: "(399 / 20 :: real) \<notin> \<int>"
  proof
    assume "(399 / 20 :: real) \<in> \<int>"
    then have "(399 / 20 :: real) = real_of_int \<lfloor>399 / 20 :: real\<rfloor>" by (simp only: Ints_floor_iff)
    then show False unfolding f by simp
  qed
  have "percentile ?l 95 =
      Inr (sort ?l ! nat \<lfloor>399 / 20 :: real\<rfloor>
           + (sort ?l ! nat \<lceil>399 / 20 :: real\<rceil> - sort ?l ! nat \<lfloor>399 / 20 :: real\<rfloor>)
             * (399 / 20 - real_of_int \<lfloor>399 / 20 :: real\<rfloor>))"
    using percentile_interp(3)[OF ne _ _ i[symmetric] ni] by simp
  then have p: "percentile ?l 95 = Inr (419 / 20)"
    unfolding s f c by simp
  from a b p show ?thesis by blast
qed

text \<open>
  C6, as amended. \<open>detect_anomalies\<close> returns the empty list for fewer than ten
  samples. For ten or more it computes the mean and the sample standard deviation
  (divisor \<open>n - 1\<close>) once and returns exactly the indices whose \<open>|value - mean| / stdev\<close>
  exceeds the threshold, the score being 0 when the standard deviation is 0; so with a
  threshold that is not negative a constant series is never flagged.
\<close>

theorem detect_anomalies_sample_stdev:
  "(length values < 10 \<longrightarrow> detect_anomalies values t = Inr []) \<and>
   (10 \<le> length values \<longrightarrow>
      detect_anomalies values t =
        Inr (filter
              (\<lambda>i. let mean_v = sum_list values / real (length values);
                       stdev_v = sqrt (sum_list (map (\<lambda>x. (x - mean_v)\<^sup>2) values)
                                       / (real (length values) - 1))
                   in (if stdev_v > 0 then \<bar>values ! i - mean_v\<bar> / stdev_v else 0) > t)
              [0..<length values])) \<and>
   (0 \<le> t \<longrightarrow> detect_anomalies (replicate n v) t = Inr [])"
  using detect_anomalies_short[of "values" t] detect_anomalies_indices[of "values" t]
    detect_anomalies_constant[of t n v]
  by (simp add: z_score_def Let_def)

theorem detect_anomalies_sample_stdev_witness:
  "detect_anomalies [100, 0, 0, 0, 0, 0, 0, 0, 0] 3 = Inr [] \<and>
   detect_anomalies [5, 5, 5, 5, 5, 5, 5, 5, 5, 5, 5, 5] 3 = Inr [] \<and>
   detect_anomalies [30, -2, -2, -2, -2, -2, -4, -4, -4, -4, -4] (29 / 10) = Inr [0] \<and>
   detect_anomalies [30, -2, -2, -2, -2, -2, -4, -4, -4, -4, -4] 3 = Inr [] \<and>
   detect_anomalies [2, 2, 2, 2, 2, -30, 4, 4, 4, 4, 4] (29 / 10) = Inr [5]"
proof -
  let ?s = "[30, -2, -2, -2, -2, -2, -4, -4, -4, -4, -4 :: real]"
  let ?u = "[2, 2, 2, 2, 2, -30, 4, 4, 4, 4, 4 :: real]"
  note T1 = detect_anomalies_sample_stdev[of "[100, 0, 0, 0, 0, 0, 0, 0, 0]" 3 12 5]
  note T2 = detect_anomalies_sample_stdev[of ?s "29 / 10" 12 5]
  note T3 = detect_anomalies_sample_stdev[of ?s 3 12 5]
  note T4 = detect_anomalies_sample_stdev[of ?u "29 / 10" 12 5]
  have a: "detect_anomalies [100, 0, 0, 0, 0, 0, 0, 0, 0] 3 = Inr []" using T1 by simp
  have r: "replicate 12 (5::real) = [5, 5, 5, 5, 5, 5, 5, 5, 5, 5, 5, 5]"
    by (simp add: eval_nat_numeral)
  have b: "detect_anomalies [5, 5, 5, 5, 5, 5, 5, 5, 5, 5, 5, 5] 3 = Inr []"
    using T1 unfolding r by simp
  have l: "10 \<le> length ?s" by simp
  have mean: "sum_list ?s / real (length ?s) = 0" by simp
  have var: "sum_list (map (\<lambda>x. (x - 0)\<^sup>2) ?s) / (real (length ?s) - 1) = 100" by simp
  have idx: "[0..<length ?s] = [0, 1, 2, 3, 4, 5, 6, 7, 8, 9, 10]"
    by (simp add: upt_rec_numeral)
  from T2 l have "detect_anomalies ?s (29 / 10) =
        Inr (filter
              (\<lambda>i. let mean_v = sum_list ?s / real (length ?s);
                       stdev_v = sqrt (sum_list (map (\<lambda>x. (x - mean_v)\<^sup>2) ?s)
                                       / (real (length ?s) - 1))
                   in (if stdev_v > 0 then \<bar>?s ! i - mean_v\<bar> / stdev_v else 0) > 29 / 10)
              [0..<length ?s])"
    by blast
  then have c: "detect_anomalies ?s (29 / 10) = Inr [0]"
    unfolding Let_def mean var sqrt_100 idx by simp
  from T3 l have "detect_anomalies ?s 3 =
        Inr (filter
              (\<lambda>i. let mean_v = sum_list ?s / real (length ?s);
                       stdev_v = sqrt (sum_list (map (\<lambda>x. (x - mean_v)\<^sup>2) ?s)
                                       / (real (length ?s) - 1))
                   in (if stdev_v > 0 then \<bar>?s ! i - mean_v\<bar> / stdev_v else 0) > 3)
              [0..<length ?s])"
    by blast
  then have d: "detect_anomalies ?s 3 = Inr []"
    unfolding Let_def mean var sqrt_100 idx by simp
  have lu: "10 \<le> length ?u" by simp
  have meanu: "sum_list ?u / real (length ?u) = 0" by simp
  have varu: "sum_list (map (\<lambda>x. (x - 0)\<^sup>2) ?u) / (real (length ?u) - 1) = 100" by simp
  have idxu: "[0..<length ?u] = [0, 1, 2, 3, 4, 5, 6, 7, 8, 9, 10]"
    by (simp add: upt_rec_numeral)
  from T4 lu have "detect_anomalies ?u (29 / 10) =
        Inr (filter
              (\<lambda>i. let mean_v = sum_list ?u / real (length ?u);
                       stdev_v = sqrt (sum_list (map (\<lambda>x. (x - mean_v)\<^sup>2) ?u)
                                       / (real (length ?u) - 1))
                   in (if stdev_v > 0 then \<bar>?u ! i - mean_v\<bar> / stdev_v else 0) > 29 / 10)
              [0..<length ?u])"
    by blast
  then have e: "detect_anomalies ?u (29 / 10) = Inr [5]"
    unfolding Let_def meanu varu sqrt_100 idxu by simp
  from a b c d e show ?thesis by blast
qed

theorem detect_anomalies_counterexample:
  "detect_anomalies [30, -2, -2, -2, -2, -2, -4, -4, -4, -4, -4] 3 = Inr [] \<and>
   spec_detect_anomalies_population [30, -2, -2, -2, -2, -2, -4, -4, -4, -4, -4] 3 = [0] \<and>
   detect_anomalies [1, 1, 1, 1, 1, 1, 1, 1, 1, 1] (- 1) = Inr [0, 1, 2, 3, 4, 5, 6, 7, 8, 9]"
proof -
  let ?s = "[30, -2, -2, -2, -2, -2, -4, -4, -4, -4, -4 :: real]"
  have l: "10 \<le> length ?s" by simp
  have mean: "sum_list ?s / real (length ?s) = 0" by simp
  have var: "sum_list (map (\<lambda>x. (x - 0)\<^sup>2) ?s) / (real (length ?s) - 1) = 100" by simp
  have idx: "[0..<length ?s] = [0, 1, 2, 3, 4, 5, 6, 7, 8, 9, 10]"
    by (simp add: upt_rec_numeral)
  have a: "detect_anomalies ?s 3 = Inr []"
    unfolding detect_anomalies_indices[OF l] mean var sqrt_100 idx by (simp add: z_score_def)
  define sg where "sg = sqrt (1000 / 11 :: real)"
  have sg: "9 < sg" "sg < 10" using sqrt_1000_11_bounds by (simp_all add: sg_def)
  have pvar: "sum_list (map (\<lambda>x. (x - 0)\<^sup>2) ?s) / real (length ?s) = 1000 / 11" by simp
  have ps: "population_stdev ?s = sg"
    unfolding population_stdev_def Let_def mean pvar sg_def ..
  have z: "z_score 0 sg 30 > 3" "\<not> z_score 0 sg (- 2) > 3" "\<not> z_score 0 sg (- 4) > 3"
    using sg by (simp_all add: z_score_def field_simps)
  have e: "enumerate 0 ?s = [(0, 30), (1, - 2), (2, - 2), (3, - 2), (4, - 2), (5, - 2),
                             (6, - 4), (7, - 4), (8, - 4), (9, - 4), (10, - 4)]"
    by simp
  have b: "spec_detect_anomalies_population ?s 3 = [0]"
    unfolding spec_detect_anomalies_population_def Let_def ps mean e using l z by simp
  let ?c = "[1, 1, 1, 1, 1, 1, 1, 1, 1, 1 :: real]"
  have lc: "10 \<le> length ?c" by simp
  have idc: "[0..<length ?c] = [0, 1, 2, 3, 4, 5, 6, 7, 8, 9]" by (simp add: upt_rec_numeral)
  have c: "detect_anomalies ?c (- 1) = Inr [0, 1, 2, 3, 4, 5, 6, 7, 8, 9]"
    unfolding detect_anomalies_indices[OF lc] idc by (simp add: z_score_def)
  from a b c show ?thesis by blast
qed

section \<open>Properties of the validation gate\<close>

lemmas gate_eval =
  run_validation_def all_checks_def then_check_def new_validator_def
  validate_data_integrity_def validate_overall_score_def validate_coverage_def
  validate_security_metrics_def validate_performance_metrics_def validate_ai_metrics_def
  validate_test_execution_def dict_get_def dict_has_def bindE_def Let_def
  coverage_checks_def coverage_step_def threshold_of_def THRESHOLDS_def
  count_failed_matching_def is_failed_match_def performance_failures_def performance_failure_def
  ai_step_def failed_tests_of_def failed_test_def add_error_def add_warning_def is_prefix_def
  py_join_def

subsection \<open>Checks only append\<close>












subsection \<open>Data integrity\<close>


lemma run_validation_success_iff:
  "run_validation pf doc = (ok, errs, warns) \<Longrightarrow> ok = (errs = [])"
  by (auto simp: run_validation_def split: prod.splits option.splits)

lemma run_validation_completed:
  "snd (all_checks pf doc new_validator) = None \<Longrightarrow>
   run_validation pf doc =
     (validation_errors (fst (all_checks pf doc new_validator)) = [],
      validation_errors (fst (all_checks pf doc new_validator)),
      warnings (fst (all_checks pf doc new_validator)))"
  by (cases "all_checks pf doc new_validator") (simp add: run_validation_def)

lemma run_validation_raised:
  "snd (all_checks pf doc new_validator) = Some e \<Longrightarrow>
   run_validation pf doc = (False, [UnexpectedError e], [])"
  by (cases "all_checks pf doc new_validator") (simp add: run_validation_def)

subsection \<open>Entries without the key \<open>passed\<close>\<close>

lemma dict_get_absent: "\<not> dict_has kvs k \<Longrightarrow> dict_get kvs k dflt = dflt"
proof -
  assume "\<not> dict_has kvs k"
  then have "map_of kvs k = None" by (simp add: dict_has_def map_of_eq_None_iff)
  then show ?thesis by (simp add: dict_get_def)
qed

lemma dict_get_assume_passed:
  "\<not> dict_has kvs ''passed'' \<Longrightarrow>
   dict_get ((''passed'', JBool True) # kvs) k dflt =
     (if k = ''passed'' then JBool True else dict_get kvs k dflt)"
  by (simp add: dict_get_def)

lemma entry_defaults:
  assumes "\<not> dict_has kvs ''passed''"
  shows "is_failed_match needle (JObj kvs) = is_failed_match needle (JObj ((''passed'', JBool True) # kvs))"
    and "performance_failure (JObj kvs) = performance_failure (JObj ((''passed'', JBool True) # kvs))"
    and "ai_step pf (JObj kvs) = ai_step pf (JObj ((''passed'', JBool True) # kvs))"
    and "failed_test (JObj kvs) = failed_test (JObj ((''passed'', JBool True) # kvs))"
  using assms
  by (simp_all add: is_failed_match_def performance_failure_def ai_step_def failed_test_def
      dict_get_assume_passed dict_get_absent cong: if_cong)

lemma entry_not_failed:
  assumes "lacks_passed entry"
  shows "is_failed_match needle entry \<noteq> Inr True"
    and "performance_failure entry = Inr cs \<Longrightarrow> cs = []"
    and "failed_test entry = Inr []"
proof -
  from assms obtain kvs where e: "entry = JObj kvs" and n: "\<not> dict_has kvs ''passed''"
    by (cases entry) auto
  show "is_failed_match needle entry \<noteq> Inr True"
    unfolding e is_failed_match_def
    by (auto simp: bindE_def dict_get_absent[OF n] split: sum.splits)
  show "performance_failure entry = Inr cs \<Longrightarrow> cs = []"
    unfolding e performance_failure_def
    by (auto simp: bindE_def dict_get_absent[OF n] split: sum.splits if_splits)
  show "failed_test entry = Inr []"
    unfolding e failed_test_def by (simp add: bindE_def dict_get_absent[OF n])
qed

lemma no_failed_matches:
  "list_all lacks_passed entries \<Longrightarrow> mapE (is_failed_match needle) entries = Inr bs \<Longrightarrow>
   filter (\<lambda>b. b) bs = []"
proof (induction entries arbitrary: bs)
  case Nil
  then show ?case by simp
next
  case (Cons e es)
  from Cons.prems(2) obtain b bs' where
    b: "is_failed_match needle e = Inr b" and r: "mapE (is_failed_match needle) es = Inr bs'"
    and bs: "bs = b # bs'"
    by (auto simp: bindE_def split: sum.splits)
  have "\<not> b" using entry_not_failed(1)[of e needle] Cons.prems(1) b by auto
  moreover have "filter (\<lambda>b. b) bs' = []" using Cons.IH[OF _ r] Cons.prems(1) by simp
  ultimately show ?case using bs by simp
qed

lemma no_performance_failures:
  "list_all lacks_passed entries \<Longrightarrow> mapE performance_failure entries = Inr cs \<Longrightarrow>
   concat cs = []"
proof (induction entries arbitrary: cs)
  case Nil
  then show ?case by simp
next
  case (Cons e es)
  from Cons.prems(2) obtain c cs' where
    c: "performance_failure e = Inr c" and r: "mapE performance_failure es = Inr cs'"
    and cs: "cs = c # cs'"
    by (auto simp: bindE_def split: sum.splits)
  have "c = []" using entry_not_failed(2)[OF _ c] Cons.prems(1) by simp
  moreover have "concat cs' = []" using Cons.IH[OF _ r] Cons.prems(1) by simp
  ultimately show ?case using cs by simp
qed

lemma no_failed_tests:
  "list_all lacks_passed entries \<Longrightarrow> \<exists>cs. mapE failed_test entries = Inr cs \<and> concat cs = []"
proof (induction entries)
  case Nil
  then show ?case by simp
next
  case (Cons e es)
  then obtain cs where "mapE failed_test es = Inr cs" "concat cs = []" by auto
  moreover have "failed_test e = Inr []" using entry_not_failed(3)[of e] Cons.prems by simp
  ultimately show ?case by (simp add: bindE_def)
qed

lemma counts_zero:
  assumes "list_all lacks_passed entries"
  shows "count_failed_matching needle (JArr entries) = Inr n \<Longrightarrow> n = 0"
    and "performance_failures (JArr entries) = Inr fs \<Longrightarrow> fs = []"
    and "failed_tests_of (JArr entries) = Inr []"
proof -
  show "count_failed_matching needle (JArr entries) = Inr n \<Longrightarrow> n = 0"
    using no_failed_matches[OF assms, of needle]
    by (auto simp: count_failed_matching_def bindE_def split: sum.splits)
  show "performance_failures (JArr entries) = Inr fs \<Longrightarrow> fs = []"
    using no_performance_failures[OF assms]
    by (auto simp: performance_failures_def bindE_def split: sum.splits)
  show "failed_tests_of (JArr entries) = Inr []"
    using no_failed_tests[OF assms] by (auto simp: failed_tests_of_def bindE_def)
qed

subsection \<open>Findings that report failed claims\<close>

lemma no_failed_claim_findings_add:
  "no_failed_claim_findings v \<Longrightarrow> \<not> is_failed_claim_finding f \<Longrightarrow>
   no_failed_claim_findings (add_error f v) \<and> no_failed_claim_findings (add_warning f v)"
  by (simp add: no_failed_claim_findings_def add_error_def add_warning_def)


lemma apply_emit_unrelated:
  "no_failed_claim_findings v \<Longrightarrow> emit_unrelated em \<Longrightarrow> no_failed_claim_findings (apply_emit em v)"
  by (cases em) (simp_all add: no_failed_claim_findings_add)

lemma emit_loop_unrelated:
  assumes "\<And>x em. body x = Inr em \<Longrightarrow> emit_unrelated em"
  shows "no_failed_claim_findings v \<Longrightarrow> no_failed_claim_findings (fst (emit_loop body xs v))"
proof (induction xs arbitrary: v)
  case Nil
  then show ?case by simp
next
  case (Cons x xs)
  show ?case
  proof (cases "body x")
    case (Inl e)
    then show ?thesis using Cons.prems by simp
  next
    case (Inr em)
    from Cons.IH[OF apply_emit_unrelated[OF Cons.prems assms[OF Inr]]] Inr
    show ?thesis by simp
  qed
qed

lemma coverage_step_unrelated: "coverage_step cov chk = Inr em \<Longrightarrow> emit_unrelated em"
  by (cases chk) (auto simp: coverage_step_def bindE_def Let_def split: sum.splits if_splits)

lemma ai_step_unrelated: "ai_step pf entry = Inr em \<Longrightarrow> emit_unrelated em"
  by (auto simp: ai_step_def bindE_def split: sum.splits if_splits json.splits option.splits)

lemma validate_data_integrity_unrelated:
  "no_failed_claim_findings v \<Longrightarrow> no_failed_claim_findings (fst (validate_data_integrity doc v))"
  by (auto simp: validate_data_integrity_def Let_def no_failed_claim_findings_add split: sum.splits)

lemma validate_overall_score_unrelated:
  "no_failed_claim_findings v \<Longrightarrow> no_failed_claim_findings (fst (validate_overall_score doc v))"
  by (auto simp: validate_overall_score_def no_failed_claim_findings_add split: sum.splits)

lemma validate_coverage_unrelated:
  "no_failed_claim_findings v \<Longrightarrow> no_failed_claim_findings (fst (validate_coverage doc v))"
  unfolding validate_coverage_def by (rule emit_loop_unrelated) (rule coverage_step_unrelated)

lemma validate_ai_metrics_unrelated:
  "no_failed_claim_findings v \<Longrightarrow> no_failed_claim_findings (fst (validate_ai_metrics pf doc v))"
  using emit_loop_unrelated[of "ai_step pf" v] ai_step_unrelated
  by (auto simp: validate_ai_metrics_def split: sum.splits)

lemma validate_security_metrics_unrelated:
  assumes "dict_get doc ''validation_results'' (JArr []) = JArr entries" "list_all lacks_passed entries"
  shows "fst (validate_security_metrics doc v) = v"
  using counts_zero(1)[OF assms(2)]
  by (auto simp: validate_security_metrics_def assms(1) Let_def threshold_of_def THRESHOLDS_def
      split: sum.splits)

lemma validate_performance_metrics_unrelated:
  assumes "dict_get doc ''validation_results'' (JArr []) = JArr entries" "list_all lacks_passed entries"
  shows "fst (validate_performance_metrics doc v) = v"
  using counts_zero(2)[OF assms(2)]
  by (auto simp: validate_performance_metrics_def assms(1) bindE_def split: sum.splits)

lemma validate_test_execution_unrelated:
  assumes "dict_get doc ''validation_results'' (JArr []) = JArr entries" "list_all lacks_passed entries"
  shows "fst (validate_test_execution doc v) = v"
  using counts_zero(3)[OF assms(2)]
  by (simp add: validate_test_execution_def assms(1) Let_def threshold_of_def THRESHOLDS_def)

lemma then_check_unrelated:
  assumes "\<And>v. no_failed_claim_findings v \<Longrightarrow> no_failed_claim_findings (fst (c1 v))"
    and "\<And>v. no_failed_claim_findings v \<Longrightarrow> no_failed_claim_findings (fst (c2 v))"
    and "no_failed_claim_findings v"
  shows "no_failed_claim_findings (fst (then_check c1 c2 v))"
proof (cases "c1 v")
  case (Pair v' r)
  have k: "no_failed_claim_findings v'" using assms(1)[OF assms(3)] Pair by simp
  show ?thesis
  proof (cases r)
    case None
    then show ?thesis using Pair assms(2)[OF k] by (simp add: then_check_def)
  next
    case (Some e)
    then show ?thesis using Pair k by (simp add: then_check_def)
  qed
qed

lemma all_checks_unrelated:
  assumes "dict_get doc ''validation_results'' (JArr []) = JArr entries" "list_all lacks_passed entries"
    and "no_failed_claim_findings v"
  shows "no_failed_claim_findings (fst (all_checks pf doc v))"
  unfolding all_checks_def using assms(3)
  by (intro then_check_unrelated validate_data_integrity_unrelated validate_overall_score_unrelated
      validate_coverage_unrelated validate_ai_metrics_unrelated)
    (simp_all add: validate_security_metrics_unrelated[OF assms(1,2)]
      validate_performance_metrics_unrelated[OF assms(1,2)]
      validate_test_execution_unrelated[OF assms(1,2)])

lemma run_validation_unrelated:
  assumes "dict_get doc ''validation_results'' (JArr []) = JArr entries" "list_all lacks_passed entries"
  shows "list_all (\<lambda>f. \<not> is_failed_claim_finding f)
           (fst (snd (run_validation pf doc)) @ snd (snd (run_validation pf doc)))"
proof (cases "snd (all_checks pf doc new_validator)")
  case None
  have "no_failed_claim_findings new_validator"
    by (simp add: no_failed_claim_findings_def new_validator_def)
  from all_checks_unrelated[OF assms this, of pf]
  show ?thesis
    unfolding run_validation_completed[OF None] by (simp add: no_failed_claim_findings_def)
next
  case (Some e)
  then show ?thesis by (simp add: run_validation_raised)
qed




text \<open>
  C8. The verdict of the gate has success exactly when its error list is empty, in
  \<open>run_validation\<close> and after the strict-mode step of \<open>main\<close>; the exit code is 0 exactly
  on success. In strict mode the warnings are appended to the errors and the warning list
  is emptied before that. So a document with no hard error and at least one warning fails
  in strict mode and passes in non-strict mode.
\<close>

theorem strict_mode_promotes_warnings:
  "(run_validation pf doc = (ok, errs, warns) \<longrightarrow>
      ok = (errs = []) \<and>
      main pf False doc = ((ok, errs, warns), if ok then 0 else 1) \<and>
      main pf True doc = ((errs @ warns = [], errs @ warns, []), if errs @ warns = [] then 0 else 1)) \<and>
   fst (fst (main pf strict doc)) = (fst (snd (fst (main pf strict doc))) = []) \<and>
   snd (main pf strict doc) = (if fst (fst (main pf strict doc)) then 0 else 1) \<and>
   (run_validation pf doc = (ok, [], warns) \<and> warns \<noteq> [] \<longrightarrow>
      fst (fst (main pf True doc)) = False \<and> fst (fst (main pf False doc)) = True)"
proof -
  have a: "ok' = (errs' = []) \<and>
      main pf False doc = ((ok', errs', warns'), if ok' then 0 else 1) \<and>
      main pf True doc = ((errs' @ warns' = [], errs' @ warns', []), if errs' @ warns' = [] then 0 else 1)"
    if r: "run_validation pf doc = (ok', errs', warns')" for ok' errs' warns'
    using run_validation_success_iff[OF r] r by (auto simp: main_def Let_def)
  obtain ok' errs' warns' where r: "run_validation pf doc = (ok', errs', warns')"
    by (cases "run_validation pf doc") auto
  have b: "fst (fst (main pf strict doc)) = (fst (snd (fst (main pf strict doc))) = []) \<and>
           snd (main pf strict doc) = (if fst (fst (main pf strict doc)) then 0 else 1)"
    using a[OF r] by (cases strict) auto
  have c: "fst (fst (main pf True doc)) = False \<and> fst (fst (main pf False doc)) = True"
    if "run_validation pf doc = (ok, [], warns) \<and> warns \<noteq> []"
    using a[of ok "[]" warns] that by auto
  from a b c show ?thesis by blast
qed

theorem strict_mode_promotes_warnings_witness:
  "main (\<lambda>s. None) True
     [(''summary'', JObj [(''overall_score'', JNum 85)]),
      (''coverage'', JObj [(''security_coverage'', JNum 1), (''correctness_coverage'', JNum 1),
                          (''performance_coverage'', JNum 0.4), (''ai_coverage'', JNum 1)]),
      (''validation_results'',
         JArr [JObj [(''claim'', JStr ''Memory Safety''), (''passed'', JBool True),
                     (''measured'', JStr ''ok'')]])]
   = ((False, [CoverageBelowRecommended ''Performance'' 40], []), 1) \<and>
   main (\<lambda>s. None) False
     [(''summary'', JObj [(''overall_score'', JNum 85)]),
      (''coverage'', JObj [(''security_coverage'', JNum 1), (''correctness_coverage'', JNum 1),
                          (''performance_coverage'', JNum 0.4), (''ai_coverage'', JNum 1)]),
      (''validation_results'',
         JArr [JObj [(''claim'', JStr ''Memory Safety''), (''passed'', JBool True),
                     (''measured'', JStr ''ok'')]])]
   = ((True, [], [CoverageBelowRecommended ''Performance'' 40]), 0)"
proof -
  let ?d = "[(''summary'', JObj [(''overall_score'', JNum 85)]),
      (''coverage'', JObj [(''security_coverage'', JNum 1), (''correctness_coverage'', JNum 1),
                          (''performance_coverage'', JNum 0.4), (''ai_coverage'', JNum 1)]),
      (''validation_results'',
         JArr [JObj [(''claim'', JStr ''Memory Safety''), (''passed'', JBool True),
                     (''measured'', JStr ''ok'')]])]"
  have r: "run_validation (\<lambda>s. None) ?d = (True, [], [CoverageBelowRecommended ''Performance'' 40])"
    by (simp add: gate_eval)
  from strict_mode_promotes_warnings[of "\<lambda>s. None" ?d True "[]" "[CoverageBelowRecommended ''Performance'' 40]" False] r
  show ?thesis by simp
qed

text \<open>
  C10. An entry of \<open>validation_results\<close> without the key \<open>passed\<close> is handled by every
  check exactly as the same entry with \<open>passed: true\<close>: it is not a failed match of any
  needle (memory safety, vulnerabilities), not a performance failure and not a failed
  test. For a document all of whose entries lack \<open>passed\<close>, the memory-safety and
  vulnerability counts are 0 whenever they are computed, the list of performance failures
  is empty whenever it is computed, the list of failed tests is empty, and the verdict
  holds no finding that reports failed claims.
\<close>

theorem missing_passed_defaults_to_true:
  "(\<not> dict_has kvs ''passed'' \<longrightarrow>
      is_failed_match needle (JObj kvs) = is_failed_match needle (JObj ((''passed'', JBool True) # kvs)) \<and>
      performance_failure (JObj kvs) = performance_failure (JObj ((''passed'', JBool True) # kvs)) \<and>
      ai_step pf (JObj kvs) = ai_step pf (JObj ((''passed'', JBool True) # kvs)) \<and>
      failed_test (JObj kvs) = failed_test (JObj ((''passed'', JBool True) # kvs)) \<and>
      is_failed_match needle (JObj kvs) \<noteq> Inr True \<and>
      (\<forall>cs. performance_failure (JObj kvs) = Inr cs \<longrightarrow> cs = []) \<and>
      failed_test (JObj kvs) = Inr []) \<and>
   (dict_get doc ''validation_results'' (JArr []) = JArr entries \<and> list_all lacks_passed entries \<longrightarrow>
      (\<forall>n. count_failed_matching needle (JArr entries) = Inr n \<longrightarrow> n = 0) \<and>
      (\<forall>fs. performance_failures (JArr entries) = Inr fs \<longrightarrow> fs = []) \<and>
      failed_tests_of (JArr entries) = Inr [] \<and>
      list_all (\<lambda>f. \<not> is_failed_claim_finding f)
        (fst (snd (run_validation pf doc)) @ snd (snd (run_validation pf doc))))"
proof -
  have a: "is_failed_match needle (JObj kvs) = is_failed_match needle (JObj ((''passed'', JBool True) # kvs)) \<and>
      performance_failure (JObj kvs) = performance_failure (JObj ((''passed'', JBool True) # kvs)) \<and>
      ai_step pf (JObj kvs) = ai_step pf (JObj ((''passed'', JBool True) # kvs)) \<and>
      failed_test (JObj kvs) = failed_test (JObj ((''passed'', JBool True) # kvs))"
    if "\<not> dict_has kvs ''passed''"
    using entry_defaults[OF that] by blast
  have b: "is_failed_match needle (JObj kvs) \<noteq> Inr True \<and>
      (\<forall>cs. performance_failure (JObj kvs) = Inr cs \<longrightarrow> cs = []) \<and>
      failed_test (JObj kvs) = Inr []"
    if "\<not> dict_has kvs ''passed''"
  proof -
    have l: "lacks_passed (JObj kvs)" using that by simp
    show ?thesis using entry_not_failed[OF l] by blast
  qed
  have c: "(\<forall>n. count_failed_matching needle (JArr entries) = Inr n \<longrightarrow> n = 0) \<and>
      (\<forall>fs. performance_failures (JArr entries) = Inr fs \<longrightarrow> fs = []) \<and>
      failed_tests_of (JArr entries) = Inr [] \<and>
      list_all (\<lambda>f. \<not> is_failed_claim_finding f)
        (fst (snd (run_validation pf doc)) @ snd (snd (run_validation pf doc)))"
    if h: "dict_get doc ''validation_results'' (JArr []) = JArr entries \<and> list_all lacks_passed entries"
  proof -
    from h have h1: "dict_get doc ''validation_results'' (JArr []) = JArr entries"
      and h2: "list_all lacks_passed entries" by simp_all
    show ?thesis
      using counts_zero[OF h2] run_validation_unrelated[OF h1 h2, of pf] by blast
  qed
  from a b c show ?thesis by blast
qed

theorem missing_passed_defaults_to_true_witness:
  "count_failed_matching ''Memory Safety''
     (JArr [JObj [(''claim'', JStr ''Memory Safety: heap'')],
            JObj [(''claim'', JStr ''AI Inference latency'')],
            JObj [(''claim'', JStr ''No Critical Vulnerabilities'')]]) = Inr 0 \<and>
   performance_failures
     (JArr [JObj [(''claim'', JStr ''Memory Safety: heap'')],
            JObj [(''claim'', JStr ''AI Inference latency'')],
            JObj [(''claim'', JStr ''No Critical Vulnerabilities'')]]) = Inr [] \<and>
   run_validation (\<lambda>s. None)
     [(''summary'', JObj [(''overall_score'', JNum 85)]),
      (''coverage'', JObj [(''security_coverage'', JNum 1), (''correctness_coverage'', JNum 1),
                          (''performance_coverage'', JNum 1), (''ai_coverage'', JNum 1)]),
      (''validation_results'',
         JArr [JObj [(''claim'', JStr ''Memory Safety: heap'')],
               JObj [(''claim'', JStr ''AI Inference latency'')],
               JObj [(''claim'', JStr ''No Critical Vulnerabilities'')]])]
   = (True, [], [])"
proof -
  let ?es = "[JObj [(''claim'', JStr ''Memory Safety: heap'')],
              JObj [(''claim'', JStr ''AI Inference latency'')],
              JObj [(''claim'', JStr ''No Critical Vulnerabilities'')]]"
  let ?d = "[(''summary'', JObj [(''overall_score'', JNum 85)]),
      (''coverage'', JObj [(''security_coverage'', JNum 1), (''correctness_coverage'', JNum 1),
                          (''performance_coverage'', JNum 1), (''ai_coverage'', JNum 1)]),
      (''validation_results'', JArr ?es)]"
  have h: "dict_get ?d ''validation_results'' (JArr []) = JArr ?es \<and> list_all lacks_passed ?es"
    by (simp add: dict_get_def dict_has_def)
  note T = missing_passed_defaults_to_true[of "[(''claim'', JStr ''Memory Safety: heap'')]"
      "''Memory Safety''" "\<lambda>s. None" ?d ?es]
  obtain n where n: "count_failed_matching ''Memory Safety'' (JArr ?es) = Inr n"
    by (simp add: gate_eval)
  obtain fs where fs: "performance_failures (JArr ?es) = Inr fs"
    by (simp add: gate_eval)
  from T h n have "n = 0" by blast
  with n have a: "count_failed_matching ''Memory Safety'' (JArr ?es) = Inr 0" by simp
  from T h fs have "fs = []" by blast
  with fs have b: "performance_failures (JArr ?es) = Inr []" by simp
  have c: "run_validation (\<lambda>s. None) ?d = (True, [], [])"
    by (simp add: gate_eval)
  from a b c show ?thesis by blast
qed

section \<open>Properties of the cross-run variability check\<close>

lemmas stress_eval =
  validate_variability_def memory_section_def metric_values_def metric_value_def
  single_valued_def bindE_def Let_def dict_get_def dict_has_def
  peak_pressure_advisory_def oom_events_advisory_def digit_char_def

lemma single_valued_card:
  assumes "mapE py_hash_key vals = Inr ks"
  shows "single_valued vals = Inr (card (set ks) = 1)"
proof (cases "vals = []")
  case True
  with assms have "ks = []" by simp
  with True show ?thesis by (simp add: single_valued_def)
next
  case False
  then show ?thesis
    using assms by (simp add: single_valued_def bindE_def length_remdups_card_conv)
qed

lemma validate_variability_few_runs:
  "length historical < 2 \<Longrightarrow> validate_variability doc historical = Inr []"
  by (simp add: validate_variability_def)

lemma validate_variability_few_sections:
  "mapE memory_section historical = Inr ms \<Longrightarrow> length (concat ms) < 3 \<Longrightarrow>
   validate_variability doc historical = Inr []"
  by (simp add: validate_variability_def bindE_def Let_def)

lemma validate_variability_advisories:
  assumes "2 \<le> length historical"
    and "mapE memory_section historical = Inr ms"
    and "3 \<le> length (concat ms)"
    and "metric_values ''peak_pressure'' (concat ms) = Inr peak_pressures"
    and "mapE py_hash_key peak_pressures = Inr pks"
    and "metric_values ''oom_events'' (concat ms) = Inr oom_events"
    and "mapE py_hash_key oom_events = Inr oks"
  shows "validate_variability doc historical =
     Inr ((if card (set pks) = 1 then [peak_pressure_advisory (length peak_pressures)] else [])
          @ (if card (set oks) = 1 then [oom_events_advisory (length oom_events)] else []))"
proof -
  have c: "\<not> length historical < 2" using assms(1) by simp
  show ?thesis
    unfolding validate_variability_def assms(2) bindE_def Let_def sum.case
      assms(4) assms(6) single_valued_card[OF assms(5)] single_valued_card[OF assms(7)]
    using c assms(3) by simp
qed

lemma mapE_pointwise: "(\<And>x. x \<in> set xs \<Longrightarrow> f x = Inr (g x)) \<Longrightarrow> mapE f xs = Inr (map g xs)"
  by (induction xs) (simp_all add: bindE_def)

lemma memory_section_dict:
  "memory_section (JObj r) = Inr (case map_of r ''memory'' of Some m \<Rightarrow> [m] | None \<Rightarrow> [])"
proof (cases "map_of r ''memory''")
  case None
  then have "\<not> dict_has r ''memory''" by (simp add: dict_has_def map_of_eq_None_iff)
  then show ?thesis using None by (simp add: memory_section_def bindE_def)
next
  case (Some m)
  then have "dict_has r ''memory''"
    by (metis dict_has_def map_of_eq_None_iff option.distinct(1))
  then show ?thesis using Some by (simp add: memory_section_def bindE_def dict_get_def)
qed

lemma metric_value_dict:
  "metric_value key (JObj m) = Inr (case map_of m key of Some x \<Rightarrow> [x] | None \<Rightarrow> [])"
proof (cases "map_of m key")
  case None
  then have "\<not> dict_has m key" by (simp add: dict_has_def map_of_eq_None_iff)
  then show ?thesis using None by (simp add: metric_value_def bindE_def)
next
  case (Some x)
  then have "dict_has m key"
    by (metis dict_has_def map_of_eq_None_iff option.distinct(1))
  then show ?thesis using Some by (simp add: metric_value_def bindE_def)
qed

lemma memory_sections_of_dicts:
  "mapE memory_section (map JObj runs) =
     Inr (map (\<lambda>r. case map_of r ''memory'' of Some m \<Rightarrow> [m] | None \<Rightarrow> []) runs)"
proof -
  have "mapE memory_section (map JObj runs) =
      Inr (map (\<lambda>j. case j of JObj r \<Rightarrow> (case map_of r ''memory'' of Some m \<Rightarrow> [m] | None \<Rightarrow> [])
                      | _ \<Rightarrow> []) (map JObj runs))"
    by (rule mapE_pointwise) (auto simp: memory_section_dict)
  then show ?thesis by (simp add: comp_def)
qed

lemma metric_values_of_dicts:
  "metric_values key (map JObj secs) =
     Inr (concat (map (\<lambda>m. case map_of m key of Some x \<Rightarrow> [x] | None \<Rightarrow> []) secs))"
proof -
  have "mapE (metric_value key) (map JObj secs) =
      Inr (map (\<lambda>j. case j of JObj m \<Rightarrow> (case map_of m key of Some x \<Rightarrow> [x] | None \<Rightarrow> [])
                      | _ \<Rightarrow> []) (map JObj secs))"
    by (rule mapE_pointwise) (auto simp: metric_value_dict)
  then show ?thesis by (simp add: metric_values_def bindE_def comp_def)
qed

lemma hash_keys_of_numbers: "mapE py_hash_key (map JNum xs) = Inr (map KNum xs)"
proof -
  have "mapE py_hash_key (map JNum xs) =
      Inr (map (\<lambda>j. case j of JNum x \<Rightarrow> KNum x | _ \<Rightarrow> KNone) (map JNum xs))"
    by (rule mapE_pointwise) auto
  then show ?thesis by (simp add: comp_def)
qed

lemma card_number_keys: "card (KNum ` A) = card A"
  by (rule card_image) (simp add: inj_on_def)

text \<open>
  C9. Take historical runs that are dictionaries, memory sections that are dictionaries
  and metric values that are numbers. The memory sections are those of the runs that have
  the key \<open>memory\<close>; the values of a tracked metric, \<open>peak_pressure\<close> or \<open>oom_events\<close>,
  are those of the memory sections that have its key. With fewer than two runs or fewer
  than three memory sections the check emits nothing. Otherwise it emits, for each
  tracked metric, the warning "No variability in ... across k runs" (k the number of
  values) exactly when the values of that metric have exactly one distinct member, and
  nothing else. Three memory sections with \<open>oom_events\<close> 2, 2, 2 give the advisory; with
  2, 3, 2 they give none.
\<close>

theorem variability_advisory_iff_single_value:
  assumes "concat (map (\<lambda>r. case map_of r ''memory'' of Some m \<Rightarrow> [m] | None \<Rightarrow> []) runs)
             = map JObj sections"
    and "concat (map (\<lambda>m. case map_of m ''peak_pressure'' of Some x \<Rightarrow> [x] | None \<Rightarrow> []) sections)
             = map JNum pressures"
    and "concat (map (\<lambda>m. case map_of m ''oom_events'' of Some x \<Rightarrow> [x] | None \<Rightarrow> []) sections)
             = map JNum ooms"
  shows "validate_variability doc (map JObj runs) =
     Inr (if length runs < 2 \<or> length sections < 3 then []
          else (if card (set pressures) = 1
                then [\<lparr>message = ''No variability in memory peak pressure across ''
                                  @ str_nat (length pressures) @ '' runs'',
                       severity = ''warning''\<rparr>]
                else [])
               @ (if card (set ooms) = 1
                  then [\<lparr>message = ''No variability in OOM events across ''
                                    @ str_nat (length ooms) @ '' runs'',
                         severity = ''warning''\<rparr>]
                  else []))"
proof -
  let ?ms = "map (\<lambda>r. case map_of r ''memory'' of Some m \<Rightarrow> [m] | None \<Rightarrow> []) runs"
  have ms: "mapE memory_section (map JObj runs) = Inr ?ms" by (rule memory_sections_of_dicts)
  have cm: "concat ?ms = map JObj sections" using assms(1) .
  have ls: "length (concat ?ms) = length sections" unfolding cm by simp
  show ?thesis
  proof (cases "length runs < 2")
    case True
    then show ?thesis using validate_variability_few_runs[of "map JObj runs" doc] by simp
  next
    case r2: False
    show ?thesis
    proof (cases "length sections < 3")
      case True
      then show ?thesis
        using validate_variability_few_sections[OF ms, of doc] ls by simp
    next
      case False
      have h1: "2 \<le> length (map JObj runs)" using r2 by simp
      have h3: "3 \<le> length (concat ?ms)" using False ls by simp
      have pp: "metric_values ''peak_pressure'' (concat ?ms) = Inr (map JNum pressures)"
        unfolding cm metric_values_of_dicts assms(2) ..
      have oo: "metric_values ''oom_events'' (concat ?ms) = Inr (map JNum ooms)"
        unfolding cm metric_values_of_dicts assms(3) ..
      from validate_variability_advisories[OF h1 ms h3 pp hash_keys_of_numbers oo hash_keys_of_numbers, of doc]
      show ?thesis
        using r2 False
        by (simp add: card_number_keys peak_pressure_advisory_def oom_events_advisory_def)
    qed
  qed
qed

theorem variability_advisory_iff_single_value_witness:
  "validate_variability JNull
     [JObj [(''memory'', JObj [(''oom_events'', JNum 2)])],
      JObj [(''memory'', JObj [(''oom_events'', JNum 2)])],
      JObj [(''memory'', JObj [(''oom_events'', JNum 2)])]]
   = Inr [\<lparr>message = ''No variability in OOM events across 3 runs'', severity = ''warning''\<rparr>] \<and>
   validate_variability JNull
     [JObj [(''memory'', JObj [(''oom_events'', JNum 2)])],
      JObj [(''memory'', JObj [(''oom_events'', JNum 3)])],
      JObj [(''memory'', JObj [(''oom_events'', JNum 2)])]]
   = Inr [] \<and>
   validate_variability JNull
     [JObj [(''memory'', JObj [(''peak_pressure'', JNum 100), (''oom_events'', JNum 1)])],
      JObj [(''chaos'', JObj [])],
      JObj [(''memory'', JObj [(''peak_pressure'', JNum 100), (''oom_events'', JNum 2)])],
      JObj [(''memory'', JObj [(''peak_pressure'', JNum 100)])]]
   = Inr [\<lparr>message = ''No variability in memory peak pressure across 3 runs'',
           severity = ''warning''\<rparr>]"
proof -
  let ?m2 = "[(''oom_events'', JNum 2)]"
  let ?m3 = "[(''oom_events'', JNum 3)]"
  let ?h = "[[(''memory'', JObj ?m2)], [(''memory'', JObj ?m2)], [(''memory'', JObj ?m2)]]"
  let ?g = "[[(''memory'', JObj ?m2)], [(''memory'', JObj ?m3)], [(''memory'', JObj ?m2)]]"
  let ?p1 = "[(''peak_pressure'', JNum 100), (''oom_events'', JNum 1)]"
  let ?p2 = "[(''peak_pressure'', JNum 100), (''oom_events'', JNum 2)]"
  let ?p3 = "[(''peak_pressure'', JNum 100)]"
  let ?k = "[[(''memory'', JObj ?p1)], [(''chaos'', JObj [])], [(''memory'', JObj ?p2)],
             [(''memory'', JObj ?p3)]]"
  have c222: "card (set [2, 2, 2 :: real]) = 1"
    unfolding length_remdups_card_conv[symmetric] by simp
  have c232: "card (set [2, 3, 2 :: real]) = 2"
    unfolding length_remdups_card_conv[symmetric] by simp
  have c100: "card (set [100, 100, 100 :: real]) = 1"
    unfolding length_remdups_card_conv[symmetric] by simp
  have c12: "card (set [1, 2 :: real]) = 2"
    unfolding length_remdups_card_conv[symmetric] by simp
  have c0: "card (set ([] :: real list)) = 0" by simp
  have "validate_variability JNull (map JObj ?h) =
     Inr (if length ?h < 2 \<or> length [?m2, ?m2, ?m2] < 3 then []
          else (if card (set ([] :: real list)) = 1
                then [\<lparr>message = ''No variability in memory peak pressure across ''
                                  @ str_nat (length ([] :: real list)) @ '' runs'',
                       severity = ''warning''\<rparr>]
                else [])
               @ (if card (set [2, 2, 2 :: real]) = 1
                  then [\<lparr>message = ''No variability in OOM events across ''
                                    @ str_nat (length [2, 2, 2 :: real]) @ '' runs'',
                         severity = ''warning''\<rparr>]
                  else []))"
    by (rule variability_advisory_iff_single_value) simp_all
  then have a: "validate_variability JNull (map JObj ?h) =
      Inr [\<lparr>message = ''No variability in OOM events across 3 runs'', severity = ''warning''\<rparr>]"
    unfolding c222 c0 by (simp add: digit_char_def)
  have "validate_variability JNull (map JObj ?g) =
     Inr (if length ?g < 2 \<or> length [?m2, ?m3, ?m2] < 3 then []
          else (if card (set ([] :: real list)) = 1
                then [\<lparr>message = ''No variability in memory peak pressure across ''
                                  @ str_nat (length ([] :: real list)) @ '' runs'',
                       severity = ''warning''\<rparr>]
                else [])
               @ (if card (set [2, 3, 2 :: real]) = 1
                  then [\<lparr>message = ''No variability in OOM events across ''
                                    @ str_nat (length [2, 3, 2 :: real]) @ '' runs'',
                         severity = ''warning''\<rparr>]
                  else []))"
    by (rule variability_advisory_iff_single_value) simp_all
  then have b: "validate_variability JNull (map JObj ?g) = Inr []"
    unfolding c232 c0 by simp
  have "validate_variability JNull (map JObj ?k) =
     Inr (if length ?k < 2 \<or> length [?p1, ?p2, ?p3] < 3 then []
          else (if card (set [100, 100, 100 :: real]) = 1
                then [\<lparr>message = ''No variability in memory peak pressure across ''
                                  @ str_nat (length [100, 100, 100 :: real]) @ '' runs'',
                       severity = ''warning''\<rparr>]
                else [])
               @ (if card (set [1, 2 :: real]) = 1
                  then [\<lparr>message = ''No variability in OOM events across ''
                                    @ str_nat (length [1, 2 :: real]) @ '' runs'',
                         severity = ''warning''\<rparr>]
                  else []))"
    by (rule variability_advisory_iff_single_value) simp_all
  then have c: "validate_variability JNull (map JObj ?k) =
      Inr [\<lparr>message = ''No variability in memory peak pressure across 3 runs'',
            severity = ''warning''\<rparr>]"
    unfolding c100 c12 by (simp add: digit_char_def)
  from a b c show ?thesis by simp
qed


end
